theory Spec2Isabelle
  imports Main
begin

section \<open>Python strings\<close>

text \<open>
  Python \<open>str\<close> values are modelled as \<open>string\<close> (lists of 8-bit characters). The
  model interprets a character as its ASCII code point: case mapping, whitespace and
  letter tests are those of Python on ASCII text, and characters above 127 are left
  alone by \<open>lower\<close> and belong to no class.
\<close>

definition ord :: "char \<Rightarrow> nat" where
  "ord c = of_char c"

definition isupper :: "char \<Rightarrow> bool" where
  "isupper c = (65 \<le> ord c \<and> ord c \<le> 90)"

definition islower :: "char \<Rightarrow> bool" where
  "islower c = (97 \<le> ord c \<and> ord c \<le> 122)"

definition isdigit :: "char \<Rightarrow> bool" where
  "isdigit c = (48 \<le> ord c \<and> ord c \<le> 57)"

definition isalpha :: "char \<Rightarrow> bool" where
  "isalpha c = (isupper c \<or> islower c)"

definition isalnum :: "char \<Rightarrow> bool" where
  "isalnum c = (isalpha c \<or> isdigit c)"

text \<open>\<open>str.isspace\<close> on ASCII: TAB, LF, VT, FF, CR, the separators 0x1C..0x1F and space.\<close>

definition isspace :: "char \<Rightarrow> bool" where
  "isspace c = ((9 \<le> ord c \<and> ord c \<le> 13) \<or> (28 \<le> ord c \<and> ord c \<le> 32))"

definition lower_char :: "char \<Rightarrow> char" where
  "lower_char c = (if isupper c then char_of (ord c + 32) else c)"

definition lower :: "string \<Rightarrow> string" where
  "lower s = map lower_char s"

text \<open>\<open>s.startswith(p)\<close>, \<open>s.endswith(p)\<close> and \<open>p in s\<close>.\<close>

definition startswith :: "string \<Rightarrow> string \<Rightarrow> bool" where
  "startswith s p = (take (length p) s = p)"

definition endswith :: "string \<Rightarrow> string \<Rightarrow> bool" where
  "endswith s p = (length p \<le> length s \<and> drop (length s - length p) s = p)"

fun contains :: "string \<Rightarrow> string \<Rightarrow> bool" where
  "contains p [] = (p = [])"
| "contains p (c # cs) = (startswith (c # cs) p \<or> contains p cs)"

text \<open>
  \<open>s.replace(old, new)\<close> for a non-empty \<open>old\<close>: the occurrences are found from the
  left and do not overlap; the text after a replaced occurrence is scanned, the
  replacement itself is not.
\<close>

function replace :: "string \<Rightarrow> string \<Rightarrow> string \<Rightarrow> string" where
  "replace old new [] = []"
| "replace old new (c # cs) =
     (if old \<noteq> [] \<and> startswith (c # cs) old
      then new @ replace old new (drop (length old) (c # cs))
      else c # replace old new cs)"
  by pat_completeness auto
termination
  by (relation "measure (\<lambda>(old, new, s). length s)") auto

text \<open>\<open>s.lstrip(chars)\<close>, \<open>s.rstrip(chars)\<close>, \<open>s.strip(chars)\<close> and the whitespace \<open>s.strip()\<close>.\<close>

definition lstrip :: "string \<Rightarrow> string \<Rightarrow> string" where
  "lstrip chars s = dropWhile (\<lambda>c. c \<in> set chars) s"

definition rstrip :: "string \<Rightarrow> string \<Rightarrow> string" where
  "rstrip chars s = rev (dropWhile (\<lambda>c. c \<in> set chars) (rev s))"

definition strip :: "string \<Rightarrow> string \<Rightarrow> string" where
  "strip chars s = rstrip chars (lstrip chars s)"

definition strip_ws :: "string \<Rightarrow> string" where
  "strip_ws s = rev (dropWhile isspace (rev (dropWhile isspace s)))"

text \<open>
  \<open>s.split(sep, 1)\<close> for a one-character separator that occurs in \<open>s\<close>: the text before
  the first occurrence, and the text after it.
\<close>

definition before :: "char \<Rightarrow> string \<Rightarrow> string" where
  "before sep s = takeWhile (\<lambda>c. c \<noteq> sep) s"

definition after :: "char \<Rightarrow> string \<Rightarrow> string" where
  "after sep s = drop 1 (dropWhile (\<lambda>c. c \<noteq> sep) s)"

text \<open>\<open>s.split(sep)\<close> (every occurrence) and \<open>sep.join(parts)\<close>.\<close>

fun split :: "char \<Rightarrow> string \<Rightarrow> string list" where
  "split sep [] = [[]]"
| "split sep (c # cs) =
     (case split sep cs of
        [] \<Rightarrow> [[c]]
      | p # ps \<Rightarrow> if c = sep then [] # p # ps else (c # p) # ps)"

fun join :: "string \<Rightarrow> string list \<Rightarrow> string" where
  "join sep [] = []"
| "join sep [p] = p"
| "join sep (p # q # ps) = p @ sep @ join sep (q # ps)"

section \<open>The libraries the crawler calls\<close>

text \<open>
  The crawler is built on four libraries that are not part of the repository: the
  URL functions of \<open>urllib.parse\<close>, the HTML parser \<open>BeautifulSoup\<close>, the address
  checker \<open>email_validator\<close> and the regular expressions of \<open>re\<close>. The URL functions
  and the regular expressions the source uses are modelled below. The repository names
  no version of Python, and \<open>urllib.parse\<close> differs between the patch levels of CPython
  3.11 and 3.12; what differs is a parameter, as are the parts that are parsers of their
  own. The parameters are collected in a record:
  \<^item> \<open>legacy_urlunsplit\<close>: \<open>urlunsplit\<close> writes \<open>//\<close> before an empty network location
    only when the path does not start with \<open>//\<close> (CPython 3.11.0 to 3.11.9 and 3.12.3);
    otherwise it has the form of CPython 3.11.10, which writes \<open>//\<close> also when the path
    starts with \<open>//\<close>;
  \<^item> \<open>more_netloc_schemes\<close>: the schemes the version adds to \<open>uses_netloc\<close>
    (\<open>itms-services\<close> in CPython 3.12.3, none in 3.11.10);
  \<^item> \<open>bracketed_netloc_error nl\<close>: the check of a network location with both brackets
    raises \<open>ValueError\<close> (\<open>_check_bracketed_host\<close> on the text between \<open>[\<close> and \<open>]\<close> in
    CPython 3.11.10, \<open>_check_bracketed_netloc\<close> on the whole location in 3.12.3, no check
    before 3.11.4);
  \<^item> \<open>BeautifulSoup html\<close>: the parsed document, or the exception the parser raises;
  \<^item> \<open>validate_email e\<close>: the \<open>normalized\<close> field of
    \<open>validate_email(e, check_deliverability=False)\<close>, or \<open>None\<close> when it raises.
\<close>

record tag =
  name :: string
  href :: "string option"

record soup =
  tags :: "tag list"
  get_text :: string

record pylib =
  legacy_urlunsplit :: bool
  more_netloc_schemes :: "string list"
  bracketed_netloc_error :: "string \<Rightarrow> bool"
  BeautifulSoup :: "string \<Rightarrow> string + soup"
  validate_email :: "string \<Rightarrow> string option"

subsection \<open>urllib.parse\<close>

text \<open>
  \<open>urlsplit\<close>, \<open>urlparse\<close>, \<open>urlunsplit\<close> and \<open>urlunparse\<close> as CPython 3.11 and 3.12
  define them, on \<open>str\<close> arguments with \<open>allow_fragments=True\<close>. A \<open>ValueError\<close> is the value
  \<open>Inl\<close> of its message. \<open>_checknetloc\<close> only looks at network locations with
  characters outside ASCII and is left out.
\<close>

record parse_result =
  scheme :: string
  netloc :: string
  path :: string
  params :: string
  query :: string
  fragment :: string

definition scheme_chars :: string where
  "scheme_chars =
     ''abcdefghijklmnopqrstuvwxyzABCDEFGHIJKLMNOPQRSTUVWXYZ0123456789+-.''"

definition uses_relative :: "string list" where
  "uses_relative = ['''', ''ftp'', ''http'', ''gopher'', ''nntp'', ''imap'',
     ''wais'', ''file'', ''https'', ''shttp'', ''mms'',
     ''prospero'', ''rtsp'', ''rtsps'', ''rtspu'', ''sftp'',
     ''svn'', ''svn+ssh'', ''ws'', ''wss'']"

definition uses_netloc :: "pylib \<Rightarrow> string list" where
  "uses_netloc L = ['''', ''ftp'', ''http'', ''gopher'', ''nntp'', ''telnet'',
     ''imap'', ''wais'', ''file'', ''mms'', ''https'', ''shttp'',
     ''snews'', ''prospero'', ''rtsp'', ''rtsps'', ''rtspu'', ''rsync'',
     ''svn'', ''svn+ssh'', ''sftp'', ''nfs'', ''git'', ''git+ssh'',
     ''ws'', ''wss''] @ more_netloc_schemes L"

definition uses_params :: "string list" where
  "uses_params = ['''', ''ftp'', ''hdl'', ''prospero'', ''http'', ''imap'',
     ''https'', ''shttp'', ''rtsp'', ''rtsps'', ''rtspu'', ''sip'',
     ''sips'', ''mms'', ''sftp'', ''tel'']"

text \<open>The characters 0x00..0x20 that \<open>urlsplit\<close> strips from the left of a URL.\<close>

definition c0_control_or_space :: "char \<Rightarrow> bool" where
  "c0_control_or_space c = (ord c \<le> 32)"

definition unsafe_url_byte :: "char \<Rightarrow> bool" where
  "unsafe_url_byte c = (ord c = 9 \<or> ord c = 13 \<or> ord c = 10)"

definition remove_unsafe_bytes :: "string \<Rightarrow> string" where
  "remove_unsafe_bytes s = filter (\<lambda>c. \<not> unsafe_url_byte c) s"

text \<open>
  The scheme test of \<open>urlsplit\<close>: a colon not in first place, a first character that is
  an ASCII letter, and only scheme characters before the colon. It gives the lowercased
  scheme and the text after the colon, or the default scheme and the whole text.
\<close>

definition split_scheme :: "string \<Rightarrow> string \<Rightarrow> string \<times> string" where
  "split_scheme dflt url =
     (if CHR '':'' \<in> set url
         \<and> before CHR '':'' url \<noteq> []
         \<and> isalpha (hd url)
         \<and> (\<forall>c \<in> set (before CHR '':'' url). c \<in> set scheme_chars)
      then (lower (before CHR '':'' url), after CHR '':'' url)
      else (dflt, url))"

text \<open>\<open>_splitnetloc(url, 2)\<close>: the text after \<open>//\<close> up to the first of \<open>/ ? #\<close>, and the rest.\<close>

definition netloc_char :: "char \<Rightarrow> bool" where
  "netloc_char c = (c \<noteq> CHR ''/'' \<and> c \<noteq> CHR ''?'' \<and> c \<noteq> CHR ''#'')"

definition splitnetloc :: "string \<Rightarrow> string \<times> string" where
  "splitnetloc url = (takeWhile netloc_char (drop 2 url), dropWhile netloc_char (drop 2 url))"

text \<open>
  The bracket checks on a network location: a lone bracket is an error, and with both
  brackets present the location is handed to the check of the version at hand.
\<close>

definition check_brackets :: "pylib \<Rightarrow> string \<Rightarrow> string option" where
  "check_brackets L nl =
     (if (CHR ''['' \<in> set nl \<and> CHR '']'' \<notin> set nl) \<or> (CHR '']'' \<in> set nl \<and> CHR ''['' \<notin> set nl)
      then Some ''Invalid IPv6 URL''
      else if CHR ''['' \<in> set nl \<and> CHR '']'' \<in> set nl
              \<and> bracketed_netloc_error L nl
      then Some ''Invalid IPv6 URL''
      else None)"

text \<open>The fragment is cut at the first \<open>#\<close>, then the query at the first \<open>?\<close>.\<close>

definition split_fragment :: "string \<Rightarrow> string \<times> string" where
  "split_fragment url =
     (if CHR ''#'' \<in> set url then (before CHR ''#'' url, after CHR ''#'' url) else (url, []))"

definition split_query :: "string \<Rightarrow> string \<times> string" where
  "split_query url =
     (if CHR ''?'' \<in> set url then (before CHR ''?'' url, after CHR ''?'' url) else (url, []))"

definition urlsplit :: "pylib \<Rightarrow> string \<Rightarrow> string \<Rightarrow> string + parse_result" where
  "urlsplit L url0 scheme0 =
     (let url1 = remove_unsafe_bytes (dropWhile c0_control_or_space url0);
          scheme1 = remove_unsafe_bytes
                      (rev (dropWhile c0_control_or_space
                         (rev (dropWhile c0_control_or_space scheme0))));
          (sch, url2) = split_scheme scheme1 url1;
          (nl, url3) = (if take 2 url2 = ''//'' then splitnetloc url2 else ([], url2))
      in case (if take 2 url2 = ''//'' then check_brackets L nl else None) of
           Some e \<Rightarrow> Inl e
         | None \<Rightarrow>
            (let (url4, frag) = split_fragment url3;
                 (url5, q) = split_query url4
             in Inr \<lparr>scheme = sch, netloc = nl, path = url5, params = [],
                     query = q, fragment = frag\<rparr>))"

text \<open>
  \<open>_splitparams\<close>: the parameters start at the first \<open>;\<close> of the last path segment (of
  the whole text when it has no \<open>/\<close>).
\<close>

definition last_segment :: "string \<Rightarrow> string" where
  "last_segment url = rev (takeWhile (\<lambda>c. c \<noteq> CHR ''/'') (rev url))"

definition splitparams :: "string \<Rightarrow> string \<times> string" where
  "splitparams url =
     (if CHR '';'' \<in> set (last_segment url)
      then (take (length url - length (last_segment url)) url @ before CHR '';'' (last_segment url),
            after CHR '';'' (last_segment url))
      else (url, []))"

definition urlparse :: "pylib \<Rightarrow> string \<Rightarrow> string \<Rightarrow> string + parse_result" where
  "urlparse L url dflt =
     (case urlsplit L url dflt of
        Inl e \<Rightarrow> Inl e
      | Inr r \<Rightarrow>
          if scheme r \<in> set uses_params \<and> CHR '';'' \<in> set (path r)
          then Inr (r\<lparr>path := fst (splitparams (path r)), params := snd (splitparams (path r))\<rparr>)
          else Inr r)"

text \<open>
  The test of \<open>urlunsplit\<close> that decides whether \<open>//\<close> and the network location are
  written: \<open>netloc or (scheme and scheme in uses_netloc and url[:2] != '//')\<close> in the
  older form, \<open>netloc or (scheme and scheme in uses_netloc) or url[:2] == '//'\<close> in the
  form of CPython 3.11.10.
\<close>

definition writes_netloc :: "pylib \<Rightarrow> string \<Rightarrow> string \<Rightarrow> string \<Rightarrow> bool" where
  "writes_netloc L sch nl url =
     (if legacy_urlunsplit L
      then nl \<noteq> [] \<or> (sch \<noteq> [] \<and> sch \<in> set (uses_netloc L) \<and> take 2 url \<noteq> ''//'')
      else nl \<noteq> [] \<or> (sch \<noteq> [] \<and> sch \<in> set (uses_netloc L)) \<or> take 2 url = ''//'')"

definition urlunsplit :: "pylib \<Rightarrow> string \<Rightarrow> string \<Rightarrow> string \<Rightarrow> string \<Rightarrow> string \<Rightarrow> string" where
  "urlunsplit L sch nl url q frag =
     (let url1 = (if writes_netloc L sch nl url
                  then ''//'' @ nl @ (if url \<noteq> [] \<and> take 1 url \<noteq> ''/'' then ''/'' @ url else url)
                  else url);
          url2 = (if sch \<noteq> [] then sch @ '':'' @ url1 else url1);
          url3 = (if q \<noteq> [] then url2 @ ''?'' @ q else url2)
      in if frag \<noteq> [] then url3 @ ''#'' @ frag else url3)"

definition urlunparse :: "pylib \<Rightarrow> string \<Rightarrow> string \<Rightarrow> string \<Rightarrow> string \<Rightarrow> string \<Rightarrow> string \<Rightarrow> string" where
  "urlunparse L sch nl url ps q frag =
     urlunsplit L sch nl (if ps \<noteq> [] then url @ '';'' @ ps else url) q frag"

section \<open>EmailExtractor: URLs\<close>

text \<open>
  \<open>normalize_url\<close>: an empty URL is returned as it is; a URL that starts with neither
  \<open>http://\<close> nor \<open>https://\<close> gets \<open>https://\<close> in front; when \<open>urlparse\<close> raises, the
  handler returns the variable \<open>url\<close>, which by then holds the prefixed text.
\<close>

definition add_scheme :: "string \<Rightarrow> string" where
  "add_scheme url =
     (if startswith url ''http://'' \<or> startswith url ''https://'' then url
      else ''https://'' @ url)"

definition normalize_url :: "pylib \<Rightarrow> string \<Rightarrow> string" where
  "normalize_url L url =
     (if url = [] then url
      else
        (case urlparse L (add_scheme url) [] of
           Inl e \<Rightarrow> add_scheme url
         | Inr parsed \<Rightarrow>
             (let nl = replace ''www.'' [] (lower (netloc parsed));
                  p = (if rstrip ''/'' (path parsed) = [] then ''/'' else rstrip ''/'' (path parsed))
              in urlunparse L (scheme parsed) nl p [] [] [])))"


text \<open>
  \<open>urljoin\<close> of CPython 3.11 and 3.12. The segments of a relative path are appended to those of
  the base path without its last one; \<open>.\<close> is dropped, \<open>..\<close> removes the segment before
  it, and empty segments in the middle are filtered out.
\<close>

definition base_parts :: "string \<Rightarrow> string list" where
  "base_parts bpath =
     (if last (split CHR ''/'' bpath) \<noteq> [] then butlast (split CHR ''/'' bpath)
      else split CHR ''/'' bpath)"

fun filter_middle :: "string list \<Rightarrow> string list" where
  "filter_middle [] = []"
| "filter_middle [x] = [x]"
| "filter_middle (x # y # ys) = x # filter (\<lambda>s. s \<noteq> []) (butlast (y # ys)) @ [last (y # ys)]"

fun resolve :: "string list \<Rightarrow> string list \<Rightarrow> string list" where
  "resolve resolved_path [] = resolved_path"
| "resolve resolved_path (seg # segs) =
     (if seg = ''..'' then resolve (butlast resolved_path) segs
      else if seg = ''.'' then resolve resolved_path segs
      else resolve (resolved_path @ [seg]) segs)"

definition joined_path :: "string \<Rightarrow> string \<Rightarrow> string" where
  "joined_path bpath p =
     (let segments = (if take 1 p = ''/'' then split CHR ''/'' p
                      else filter_middle (base_parts bpath @ split CHR ''/'' p));
          resolved_path = resolve [] segments
                          @ (if last segments = ''.'' \<or> last segments = ''..'' then [[]] else [])
      in if join ''/'' resolved_path = [] then ''/'' else join ''/'' resolved_path)"

definition urljoin :: "pylib \<Rightarrow> string \<Rightarrow> string \<Rightarrow> string + string" where
  "urljoin L base url =
     (if base = [] then Inr url
      else if url = [] then Inr base
      else
        (case urlparse L base [] of
           Inl e \<Rightarrow> Inl e
         | Inr b \<Rightarrow>
             (case urlparse L url (scheme b) of
                Inl e \<Rightarrow> Inl e
              | Inr u \<Rightarrow>
                  if scheme u \<noteq> scheme b \<or> scheme u \<notin> set uses_relative then Inr url
                  else if scheme u \<in> set (uses_netloc L) \<and> netloc u \<noteq> []
                  then Inr (urlunparse L (scheme u) (netloc u) (path u) (params u) (query u) (fragment u))
                  else
                    (let nl = (if scheme u \<in> set (uses_netloc L) then netloc b else netloc u)
                     in if path u = [] \<and> params u = []
                        then Inr (urlunparse L (scheme u) nl (path b) (params b)
                                    (if query u = [] then query b else query u) (fragment u))
                        else Inr (urlunparse L (scheme u) nl (joined_path (path b) (path u))
                                    (params u) (query u) (fragment u))))))"

text \<open>\<open>extract_domain\<close>: the lowercased network location without \<open>www.\<close>, or the empty string.\<close>

definition extract_domain :: "pylib \<Rightarrow> string \<Rightarrow> string" where
  "extract_domain L url =
     (case urlparse L url [] of
        Inl e \<Rightarrow> []
      | Inr parsed \<Rightarrow> replace ''www.'' [] (lower (netloc parsed)))"

definition excluded_extensions :: "string list" where
  "excluded_extensions =
     [''.pdf'', ''.jpg'', ''.jpeg'', ''.png'', ''.gif'', ''.css'',
      ''.js'', ''.ico'', ''.svg'', ''.zip'', ''.mp4'', ''.mp3'',
      ''.avi'', ''.mov'', ''.wmv'', ''.flv'', ''.webm'',
      ''.doc'', ''.docx'', ''.xls'', ''.xlsx'', ''.ppt'', ''.pptx'',
      ''.exe'', ''.dmg'', ''.apk'', ''.deb'', ''.rpm'']"

definition is_valid_url :: "pylib \<Rightarrow> string \<Rightarrow> string \<Rightarrow> bool" where
  "is_valid_url L url base_domain =
     (case urlparse L url [] of
        Inl e \<Rightarrow> False
      | Inr parsed \<Rightarrow>
          if scheme parsed = [] \<or> netloc parsed = [] then False
          else if replace ''www.'' [] (lower (netloc parsed)) \<noteq> base_domain
                  \<and> \<not> endswith (replace ''www.'' [] (lower (netloc parsed))) (''.'' @ base_domain)
          then False
          else if list_ex (\<lambda>ext. endswith (lower (path parsed)) ext) excluded_extensions then False
          else True)"

text \<open>
  A Python \<open>set\<close> of strings is a list without repetition, in the order of insertion;
  Python itself promises no order when such a set is iterated.
\<close>

definition set_add :: "string list \<Rightarrow> string \<Rightarrow> string list" where
  "set_add xs x = (if x \<in> set xs then xs else xs @ [x])"

text \<open>\<open>soup.find_all(names, href=True)\<close>: the \<open>href\<close> values of the tags with one of the names.\<close>

definition find_all :: "string list \<Rightarrow> soup \<Rightarrow> string list" where
  "find_all names s = concat (map (\<lambda>t. case href t of None \<Rightarrow> [] | Some h \<Rightarrow> [h])
                              (filter (\<lambda>t. name t \<in> set names) (tags s)))"

definition skipped_href :: "string \<Rightarrow> bool" where
  "skipped_href h = (startswith h ''mailto:'' \<or> startswith h ''tel:''
                     \<or> startswith h ''javascript:'' \<or> startswith h ''#'')"

text \<open>
  The loop of \<open>extract_links\<close>. An exception of \<open>urljoin\<close> skips the tag; an exception of
  the \<open>urlparse\<close> that follows leaves the loop through the outer handler, with the links
  found so far.
\<close>

fun links_loop :: "pylib \<Rightarrow> string \<Rightarrow> string \<Rightarrow> string list \<Rightarrow> string list \<Rightarrow> string list" where
  "links_loop L base_url base_domain links [] = links"
| "links_loop L base_url base_domain links (h # hs) =
     (if skipped_href h then links_loop L base_url base_domain links hs
      else
        (case urljoin L base_url h of
           Inl e \<Rightarrow> links_loop L base_url base_domain links hs
         | Inr absolute_url \<Rightarrow>
             (case urlparse L absolute_url [] of
                Inl e \<Rightarrow> links
              | Inr parsed \<Rightarrow>
                  if is_valid_url L (urlunparse L (scheme parsed) (netloc parsed) (path parsed) [] [] [])
                       base_domain
                  then links_loop L base_url base_domain
                         (set_add links (urlunparse L (scheme parsed) (netloc parsed) (path parsed) [] [] []))
                         hs
                  else links_loop L base_url base_domain links hs)))"

definition extract_links :: "pylib \<Rightarrow> string \<Rightarrow> string \<Rightarrow> string \<Rightarrow> string list" where
  "extract_links L html base_url base_domain =
     (case BeautifulSoup L html of
        Inl e \<Rightarrow> []
      | Inr s \<Rightarrow> links_loop L base_url base_domain [] (find_all [''a'', ''area''] s))"

section \<open>Regular expressions\<close>

text \<open>
  The patterns of the source are sequences of single characters, greedy repetitions of a
  character class (\<open>*\<close>, \<open>+\<close>, \<open>{2,}\<close>), capture groups around one such repetition, and
  the word boundary \<open>\b\<close>. The matcher follows the backtracking search of \<open>re\<close> for this
  fragment: a repetition first takes as many characters as it can and gives them back
  one at a time while the rest of the pattern fails.
\<close>

datatype cls =
    Lit char
  | LitI char
  | Alnum
  | User
  | Host
  | Alpha
  | AlphaBar
  | Space

text \<open>
  \<open>Lit c\<close> is the character itself, \<open>LitI c\<close> the lowercase letter \<open>c\<close> under
  \<open>re.I\<close>; \<open>Alnum\<close> is \<open>[A-Za-z0-9]\<close>, \<open>User\<close> is \<open>[A-Za-z0-9._%+-]\<close>, \<open>Host\<close> is
  \<open>[A-Za-z0-9.-]\<close>, \<open>Alpha\<close> is \<open>[A-Za-z]\<close>, \<open>AlphaBar\<close> is \<open>[A-Z|a-z]\<close> and \<open>Space\<close>
  is \<open>\s\<close>.
\<close>

fun in_cls :: "cls \<Rightarrow> char \<Rightarrow> bool" where
  "in_cls (Lit d) c = (c = d)"
| "in_cls (LitI d) c = (lower_char c = d)"
| "in_cls Alnum c = isalnum c"
| "in_cls User c = (isalnum c \<or> c \<in> set ''._%+-'')"
| "in_cls Host c = (isalnum c \<or> c \<in> set ''.-'')"
| "in_cls Alpha c = isalpha c"
| "in_cls AlphaBar c = (isalpha c \<or> c = CHR ''|'')"
| "in_cls Space c = isspace c"

datatype atom =
    One cls
  | Many cls nat
  | Group cls nat
  | Boundary

text \<open>
  \<open>Many k n\<close> is the class \<open>k\<close> repeated at least \<open>n\<close> times, \<open>Group k n\<close> the same inside
  a capture group. \<open>\w\<close> on ASCII is a letter, a digit or the underscore.
\<close>

definition is_word :: "char option \<Rightarrow> bool" where
  "is_word c = (case c of None \<Rightarrow> False | Some d \<Rightarrow> isalnum d \<or> d = CHR ''_'')"

definition prev_after :: "char option \<Rightarrow> string \<Rightarrow> char option" where
  "prev_after prev taken = (if taken = [] then prev else Some (last taken))"

text \<open>
  \<open>match_here atoms prev s\<close> matches the pattern at the start of \<open>s\<close>, where \<open>prev\<close> is
  the character before it; the result is the list of captured groups and the text left
  after the match. \<open>give_back\<close> tries a repetition with \<open>k\<close> characters, then with fewer.
\<close>

fun match_here :: "atom list \<Rightarrow> char option \<Rightarrow> string \<Rightarrow> (string list \<times> string) option"
  and give_back :: "atom list \<Rightarrow> bool \<Rightarrow> nat \<Rightarrow> char option \<Rightarrow> string \<Rightarrow> nat
                      \<Rightarrow> (string list \<times> string) option" where
  "match_here [] prev s = Some ([], s)"
| "match_here (One k # atoms) prev s =
     (case s of
        [] \<Rightarrow> None
      | c # cs \<Rightarrow> if in_cls k c then match_here atoms (Some c) cs else None)"
| "match_here (Many k n # atoms) prev s =
     give_back atoms False n prev s (length (takeWhile (in_cls k) s))"
| "match_here (Group k n # atoms) prev s =
     give_back atoms True n prev s (length (takeWhile (in_cls k) s))"
| "match_here (Boundary # atoms) prev s =
     (if is_word prev \<noteq> is_word (case s of [] \<Rightarrow> None | c # cs \<Rightarrow> Some c)
      then match_here atoms prev s else None)"
| "give_back atoms captured n prev s 0 =
     (if n = 0
      then (case match_here atoms prev s of
              None \<Rightarrow> None
            | Some (groups, rest) \<Rightarrow> Some (if captured then [] # groups else groups, rest))
      else None)"
| "give_back atoms captured n prev s (Suc j) =
     (if Suc j < n then None
      else
        (case match_here atoms (prev_after prev (take (Suc j) s)) (drop (Suc j) s) of
           Some (groups, rest) \<Rightarrow>
             Some (if captured then take (Suc j) s # groups else groups, rest)
         | None \<Rightarrow> give_back atoms captured n prev s j))"

text \<open>
  \<open>pattern.sub(repl, text)\<close> and \<open>pattern.findall(text)\<close> scan from the left; after a
  match the scan goes on behind it. None of the patterns below matches the empty string.
\<close>

function re_sub :: "atom list \<Rightarrow> (string list \<Rightarrow> string) \<Rightarrow> char option \<Rightarrow> string \<Rightarrow> string" where
  "re_sub atoms repl prev [] = []"
| "re_sub atoms repl prev (c # cs) =
     (case match_here atoms prev (c # cs) of
        Some (groups, rest) \<Rightarrow>
          if length rest < length (c # cs)
          then repl groups
               @ re_sub atoms repl
                   (prev_after prev (take (length (c # cs) - length rest) (c # cs))) rest
          else c # re_sub atoms repl (Some c) cs
      | None \<Rightarrow> c # re_sub atoms repl (Some c) cs)"
  by pat_completeness auto
termination
  by (relation "measure (\<lambda>(atoms, repl, prev, s). length s)") auto

function findall :: "atom list \<Rightarrow> char option \<Rightarrow> string \<Rightarrow> string list" where
  "findall atoms prev [] = []"
| "findall atoms prev (c # cs) =
     (case match_here atoms prev (c # cs) of
        Some (groups, rest) \<Rightarrow>
          if length rest < length (c # cs)
          then take (length (c # cs) - length rest) (c # cs)
               # findall atoms
                   (prev_after prev (take (length (c # cs) - length rest) (c # cs))) rest
          else findall atoms (Some c) cs
      | None \<Rightarrow> findall atoms (Some c) cs)"
  by pat_completeness auto
termination
  by (relation "measure (\<lambda>(atoms, prev, s). length s)") auto

section \<open>EmailExtractor: addresses\<close>

definition EMAIL_PATTERN :: "atom list" where
  "EMAIL_PATTERN =
     [Boundary, One Alnum, Many User 0, One (Lit CHR ''@''), One Alnum, Many Host 0,
      One (Lit CHR ''.''), Many AlphaBar 2, Boundary]"

text \<open>The replacement text \<open>\1@\2.\3\<close>.\<close>

definition at_dot :: "string list \<Rightarrow> string" where
  "at_dot groups =
     (case groups of
        [u, h, t] \<Rightarrow> u @ ''@'' @ h @ ''.'' @ t
      | _ \<Rightarrow> [])"

definition OBFUSCATED_PATTERNS :: "(atom list \<times> (string list \<Rightarrow> string)) list" where
  "OBFUSCATED_PATTERNS =
     [([Group User 1, Many Space 0,
        One (Lit CHR ''[''), One (LitI CHR ''a''), One (LitI CHR ''t''), One (Lit CHR '']''),
        Many Space 0, Group Host 1, Many Space 0,
        One (Lit CHR ''[''), One (LitI CHR ''d''), One (LitI CHR ''o''), One (LitI CHR ''t''),
        One (Lit CHR '']''), Many Space 0, Group Alpha 2], at_dot),
      ([Group User 1, Many Space 0,
        One (Lit CHR ''(''), One (LitI CHR ''a''), One (LitI CHR ''t''), One (Lit CHR '')''),
        Many Space 0, Group Host 1, Many Space 0,
        One (Lit CHR ''(''), One (LitI CHR ''d''), One (LitI CHR ''o''), One (LitI CHR ''t''),
        One (Lit CHR '')''), Many Space 0, Group Alpha 2], at_dot),
      ([Group User 1, Many Space 0,
        One (Lit CHR ''[''), One (Lit CHR ''A''), One (Lit CHR ''T''), One (Lit CHR '']''),
        Many Space 0, Group Host 1, Many Space 0,
        One (Lit CHR ''[''), One (Lit CHR ''D''), One (Lit CHR ''O''), One (Lit CHR ''T''),
        One (Lit CHR '']''), Many Space 0, Group Alpha 2], at_dot),
      ([Group User 1, Many Space 0, One (Lit CHR ''@''), Many Space 0, Group Host 1,
        Many Space 0, One (Lit CHR ''.''), Many Space 0, Group Alpha 2], at_dot),
      ([Group User 1, Many Space 0,
        One (Lit CHR ''(''), One (LitI CHR ''a''), One (Lit CHR '')''),
        Many Space 0, Group Host 1, Many Space 0,
        One (Lit CHR ''(''), One (LitI CHR ''d''), One (LitI CHR ''o''), One (LitI CHR ''t''),
        One (Lit CHR '')''), Many Space 0, Group Alpha 2], at_dot)]"

text \<open>
  \<open>extract_emails_from_html\<close>: the \<open>mailto:\<close> links, then the matches of \<open>EMAIL_PATTERN\<close>
  in the text of the document after the rewrites, in one set.
\<close>

definition mailto_address :: "string \<Rightarrow> string" where
  "mailto_address h = strip_ws (before CHR ''?'' (drop 7 h))"

definition mailto_emails :: "string list \<Rightarrow> string list" where
  "mailto_emails hrefs =
     fold (\<lambda>h emails. if startswith h ''mailto:'' \<and> mailto_address h \<noteq> []
                        then set_add emails (mailto_address h) else emails) hrefs []"

definition deobfuscate :: "string \<Rightarrow> string" where
  "deobfuscate text = fold (\<lambda>(pattern, replacement) t. re_sub pattern replacement None t)
                        OBFUSCATED_PATTERNS text"

definition extract_emails_from_html :: "pylib \<Rightarrow> string \<Rightarrow> string list" where
  "extract_emails_from_html L html =
     (case BeautifulSoup L html of
        Inl e \<Rightarrow> []
      | Inr s \<Rightarrow>
          fold (\<lambda>e emails. set_add emails e)
            (findall EMAIL_PATTERN None (deobfuscate (get_text s)))
            (mailto_emails (find_all [''a''] s)))"

text \<open>
  \<open>normalize_email\<close>: lowercase and trim, strip trailing punctuation, strip enclosing
  brackets, quotes and spaces, then ask the validator.
\<close>

definition enclosing_chars :: string where
  "enclosing_chars = ''<>()[]{}'' @ [CHR 0x22, CHR 0x27, CHR 0x20]"

definition normalize_email :: "pylib \<Rightarrow> string \<Rightarrow> string option" where
  "normalize_email L email =
     validate_email L (strip enclosing_chars (rstrip ''.,;:!?'' (strip_ws (lower email))))"

section \<open>EmailExtractor: fetching a page\<close>

text \<open>
  An exception is one of the three kinds \<open>fetch_page\<close> tells apart; every one of them
  is an \<open>Exception\<close>. The HTTP session answers a request with an exception or with a
  response; reading the body of a response may raise as well.
\<close>

datatype exn = TimeoutError | ClientError string | OtherException string

record response =
  status :: nat
  content_type :: "string option"
  read_text :: "exn + string"

definition fetch_page_try :: "(string \<Rightarrow> exn + response) \<Rightarrow> string \<Rightarrow> exn + (string option \<times> nat)" where
  "fetch_page_try session_get url =
     (case session_get url of
        Inl e \<Rightarrow> Inl e
      | Inr resp \<Rightarrow>
          if status resp = 200
          then (let ct = lower (case content_type resp of None \<Rightarrow> [] | Some v \<Rightarrow> v)
                in if contains ''text/html'' ct \<or> contains ''text/plain'' ct
                   then (case read_text resp of
                           Inl e \<Rightarrow> Inl e
                         | Inr t \<Rightarrow> Inr (Some t, status resp))
                   else Inr (None, status resp))
          else Inr (None, status resp))"

definition fetch_page :: "(string \<Rightarrow> exn + response) \<Rightarrow> string \<Rightarrow> exn + (string option \<times> nat)" where
  "fetch_page session_get url =
     (case fetch_page_try session_get url of
        Inl TimeoutError \<Rightarrow> Inr (None, 0)
      | Inl (ClientError e) \<Rightarrow> Inr (None, 0)
      | Inl (OtherException e) \<Rightarrow> Inr (None, 0)
      | Inr r \<Rightarrow> Inr r)"

section \<open>The database\<close>

text \<open>
  The tables the crawler writes. \<open>domains\<close> is keyed by the row id; \<open>pages\<close> and
  \<open>emails\<close> are lists of rows in insertion order, and the id of an inserted page
  (\<open>cursor.lastrowid\<close>) is its position in \<open>pages\<close>, counted from 1.
\<close>

datatype domain_status = Pending | Crawling | Completed | Failed

record domain_row =
  row_status :: domain_status
  row_pages_crawled :: nat
  row_emails_found :: nat
  row_error_message :: "string option"
  row_worker_id :: "string option"
  row_locked_at :: "nat option"

record page_row =
  page_domain_id :: nat
  page_url :: string
  page_status_code :: nat
  page_content_type :: "string option"
  page_error_message :: "string option"

record email_row =
  email_domain_id :: nat
  email_page_id :: nat
  raw_email :: string
  normalized_email :: string

record database =
  domains :: "nat \<Rightarrow> domain_row option"
  pages :: "page_row list"
  emails :: "email_row list"

text \<open>\<open>UPDATE domains SET ... WHERE id = %s\<close> changes the row with that id, if there is one.\<close>

definition update_domain :: "nat \<Rightarrow> (domain_row \<Rightarrow> domain_row) \<Rightarrow> database \<Rightarrow> database" where
  "update_domain domain_id f d =
     (case domains d domain_id of
        None \<Rightarrow> d
      | Some r \<Rightarrow> d\<lparr>domains := (domains d)(domain_id := Some (f r))\<rparr>)"

text \<open>\<open>INSERT IGNORE INTO emails\<close>: a row whose (domain_id, normalized_email) is there is skipped.\<close>

definition insert_ignore :: "email_row \<Rightarrow> database \<Rightarrow> database" where
  "insert_ignore r d =
     (if list_ex (\<lambda>x. email_domain_id x = email_domain_id r \<and> normalized_email x = normalized_email r)
           (emails d)
      then d else d\<lparr>emails := emails d @ [r]\<rparr>)"

section \<open>EmailExtractor: crawling one domain\<close>

text \<open>
  What a crawl meets outside itself: the answers of the HTTP session, the database
  statements that raise (with the text of the exception), the clock, and the order in which
  the event loop resumes the page tasks of one \<open>asyncio.gather\<close> once their fetches are
  done.
\<close>

record world =
  session_get :: "string \<Rightarrow> exn + response"
  claim_raises :: "string option"
  page_insert_raises :: "string \<Rightarrow> string option"
  flush_raises :: "string option"
  complete_raises :: "string option"
  failed_raises :: "string option"
  now :: nat
  completion_order :: "(nat \<times> string) list \<Rightarrow> (nat \<times> string) list"

text \<open>
  The local state of \<open>crawl_domain\<close>: the set \<open>visited_urls\<close>, the dictionary
  \<open>emails_found\<close> (normalized address, then raw address, page URL and page id), the
  \<open>queue\<close> of (depth, URL), and the database. \<open>fetched\<close> records every call of
  \<open>fetch_page\<close>, in order.
\<close>

record crawl =
  visited_urls :: "string list"
  emails_found :: "(string \<times> string \<times> string \<times> nat) list"
  queue :: "(nat \<times> string) list"
  db :: database
  fetched :: "string list"

definition EMAIL_PATHS :: "string list" where
  "EMAIL_PATHS =
     [''/contact'', ''/about'', ''/team'', ''/careers'', ''/jobs'',
      ''/faq'', ''/privacy'', ''/support'', ''/legal'', ''/terms'',
      ''/company'', ''/staff'', ''/people'', ''/leadership'',
      ''/contact-us'', ''/about-us'', ''/our-team'', ''/meet-the-team'']"

text \<open>
  \<open>process_url\<close> runs in two pieces. The first runs as soon as the task is scheduled, with
  no suspension in it: the guard, the insertion into \<open>visited_urls\<close>, and the call of
  \<open>fetch_page\<close>. \<open>start_tasks\<close> runs it for the tasks of one \<open>gather\<close>, in the order of
  their creation, and returns the tasks that went on to fetch.
\<close>

fun start_tasks :: "nat \<Rightarrow> (nat \<times> string) list \<Rightarrow> crawl \<Rightarrow> (nat \<times> string) list \<times> crawl" where
  "start_tasks max_depth [] st = ([], st)"
| "start_tasks max_depth ((depth, current_url) # ts) st =
     (if depth > max_depth \<or> current_url \<in> set (visited_urls st)
      then start_tasks max_depth ts st
      else
        (case start_tasks max_depth ts
                (st\<lparr>visited_urls := set_add (visited_urls st) current_url,
                    fetched := fetched st @ [current_url]\<rparr>) of
           (started, st') \<Rightarrow> ((depth, current_url) # started, st')))"

text \<open>The page row of one fetch, and its insertion; the result is the page id, if any.\<close>

definition truthy :: "string option \<Rightarrow> bool" where
  "truthy html = (case html of None \<Rightarrow> False | Some h \<Rightarrow> h \<noteq> [])"

definition store_page :: "world \<Rightarrow> nat \<Rightarrow> string \<Rightarrow> string option \<Rightarrow> nat \<Rightarrow> database
    \<Rightarrow> nat option \<times> database" where
  "store_page E domain_id current_url html status_code d =
     (case page_insert_raises E current_url of
        Some e \<Rightarrow> (None, d)
      | None \<Rightarrow>
          (Some (Suc (length (pages d))),
           d\<lparr>pages := pages d @
                [\<lparr>page_domain_id = domain_id, page_url = take 1000 current_url,
                  page_status_code = status_code,
                  page_content_type = (if truthy html then Some ''text/html'' else None),
                  page_error_message = (if truthy html then None else Some ''Failed to fetch'')\<rparr>]\<rparr>))"

definition record_emails :: "pylib \<Rightarrow> string \<Rightarrow> string \<Rightarrow> nat
    \<Rightarrow> (string \<times> string \<times> string \<times> nat) list \<Rightarrow> (string \<times> string \<times> string \<times> nat) list" where
  "record_emails L html current_url page_id found =
     fold (\<lambda>raw_email found.
             case normalize_email L raw_email of
               None \<Rightarrow> found
             | Some normalized \<Rightarrow>
                 if normalized \<noteq> [] \<and> normalized \<notin> fst ` set found
                 then found @ [(normalized, raw_email, current_url, page_id)]
                 else found)
          (extract_emails_from_html L html) found"

definition priority_links :: "string list \<Rightarrow> string list" where
  "priority_links links = filter (\<lambda>link. list_ex (\<lambda>p. contains p (lower link)) EMAIL_PATHS) links"

definition other_links :: "string list \<Rightarrow> string list" where
  "other_links links = filter (\<lambda>link. link \<notin> set (priority_links links)) links"

definition enqueue_links :: "pylib \<Rightarrow> string \<Rightarrow> nat \<Rightarrow> string \<Rightarrow> string \<Rightarrow> crawl \<Rightarrow> crawl" where
  "enqueue_links L base_domain depth html current_url st =
     st\<lparr>queue := queue st @
          map (\<lambda>link. (depth + 1, link))
            (filter (\<lambda>link. link \<notin> set (visited_urls st))
               (priority_links (extract_links L html current_url base_domain)
                @ other_links (extract_links L html current_url base_domain)))\<rparr>"

text \<open>
  The second piece of \<open>process_url\<close>, from the answer of \<open>fetch_page\<close> on: the page
  row, the addresses, the links. \<open>fetch_page\<close> has no exceptional result (see the
  properties), and an exception of a task would be swallowed by \<open>gather\<close>.
\<close>

definition finish_task :: "pylib \<Rightarrow> world \<Rightarrow> nat \<Rightarrow> nat \<Rightarrow> string \<Rightarrow> nat \<times> string \<Rightarrow> crawl \<Rightarrow> crawl" where
  "finish_task L E max_depth domain_id base_domain task st =
     (case fetch_page (session_get E) (snd task) of
        Inl e \<Rightarrow> st
      | Inr (html, status_code) \<Rightarrow>
          (case store_page E domain_id (snd task) html status_code (db st) of
             (page_id, d) \<Rightarrow>
               if \<not> truthy html \<or> page_id = None then st\<lparr>db := d\<rparr>
               else
                 (let st1 = st\<lparr>db := d,
                                emails_found := record_emails L (the html) (snd task) (the page_id)
                                                  (emails_found st)\<rparr>
                  in if fst task < max_depth
                     then enqueue_links L base_domain (fst task) (the html) (snd task) st1
                     else st1)))"

text \<open>\<open>await asyncio.gather(*tasks, return_exceptions=True)\<close>.\<close>

definition gather :: "pylib \<Rightarrow> world \<Rightarrow> nat \<Rightarrow> nat \<Rightarrow> string \<Rightarrow> (nat \<times> string) list \<Rightarrow> crawl \<Rightarrow> crawl" where
  "gather L E max_depth domain_id base_domain tasks st =
     (case start_tasks max_depth tasks st of
        (started, st1) \<Rightarrow>
          fold (finish_task L E max_depth domain_id base_domain) (completion_order E started) st1)"

text \<open>
  The \<open>while queue:\<close> loop. A batch of at most 50 entries is popped and a task is created
  for each; \<open>asyncio.create_task\<close> only schedules a task, which first runs when
  \<open>crawl_domain\<close> next awaits. The loop awaits only when at least 50 tasks are pending. It
  returns the pending tasks with the state.
\<close>

partial_function (option) bfs_loop ::
    "pylib \<Rightarrow> world \<Rightarrow> nat \<Rightarrow> nat \<Rightarrow> string \<Rightarrow> (nat \<times> string) list \<Rightarrow> crawl
     \<Rightarrow> ((nat \<times> string) list \<times> crawl) option" where
  "bfs_loop L E max_depth domain_id base_domain tasks st =
     (if queue st = [] then Some (tasks, st)
      else if 50 \<le> length (tasks @ take 50 (queue st))
      then bfs_loop L E max_depth domain_id base_domain []
             (gather L E max_depth domain_id base_domain (tasks @ take 50 (queue st))
                (st\<lparr>queue := drop 50 (queue st)\<rparr>))
      else bfs_loop L E max_depth domain_id base_domain (tasks @ take 50 (queue st))
             (st\<lparr>queue := drop 50 (queue st)\<rparr>))"

text \<open>The flush of \<open>emails_found\<close>, inside its own \<open>try\<close>: an exception is logged.\<close>

definition flush_emails :: "world \<Rightarrow> nat \<Rightarrow> crawl \<Rightarrow> crawl" where
  "flush_emails E domain_id st =
     (if emails_found st = [] then st
      else
        (case flush_raises E of
           Some e \<Rightarrow> st
         | None \<Rightarrow>
             st\<lparr>db := fold (\<lambda>(normalized, raw, url, page_id).
                              insert_ignore \<lparr>email_domain_id = domain_id, email_page_id = page_id,
                                             raw_email = take 255 raw,
                                             normalized_email = take 255 normalized\<rparr>)
                         (emails_found st) (db st)\<rparr>))"

text \<open>
  The body of the outer \<open>try\<close>. \<open>Inl (e, st)\<close> is an exception with text \<open>e\<close> raised in
  state \<open>st\<close>; the two statements that can raise are the claim of the domain and the
  final update.
\<close>

definition initial_crawl :: "database \<Rightarrow> string \<Rightarrow> crawl" where
  "initial_crawl d url =
     \<lparr>visited_urls = [], emails_found = [], queue = [(0, url)], db = d, fetched = []\<rparr>"

definition crawl_try :: "pylib \<Rightarrow> world \<Rightarrow> nat \<Rightarrow> database \<Rightarrow> nat \<Rightarrow> string \<Rightarrow> string
    \<Rightarrow> ((string \<times> crawl) + crawl) option" where
  "crawl_try L E max_depth d domain_id url worker =
     (case claim_raises E of
        Some e \<Rightarrow> Some (Inl (e, initial_crawl d url))
      | None \<Rightarrow>
          (case bfs_loop L E max_depth domain_id (extract_domain L url) []
                  (initial_crawl
                     (update_domain domain_id
                        (\<lambda>r. r\<lparr>row_status := Crawling, row_worker_id := Some worker,
                                row_locked_at := Some (now E)\<rparr>) d) url) of
             None \<Rightarrow> None
           | Some (tasks, st) \<Rightarrow>
               (let st1 = (if tasks \<noteq> []
                           then gather L E max_depth domain_id (extract_domain L url) tasks st
                           else st);
                    st2 = flush_emails E domain_id st1
                in case complete_raises E of
                     Some e \<Rightarrow> Some (Inl (e, st2))
                   | None \<Rightarrow>
                       Some (Inr (st2\<lparr>db := update_domain domain_id
                                     (\<lambda>r. r\<lparr>row_status := Completed,
                                             row_pages_crawled := length (visited_urls st2),
                                             row_emails_found := length (emails_found st2),
                                             row_worker_id := None, row_locked_at := None\<rparr>)
                                     (db st2)\<rparr>)))))"

text \<open>
  The handler \<open>except Exception as e\<close>: the update to \<open>failed\<close> with \<open>str(e)[:500]\<close>, in a
  \<open>try\<close> of its own whose handler logs and goes on.
\<close>

definition mark_failed :: "world \<Rightarrow> nat \<Rightarrow> string \<Rightarrow> crawl \<Rightarrow> string + crawl" where
  "mark_failed E domain_id e st =
     (case failed_raises E of
        Some db_error \<Rightarrow> Inr st
      | None \<Rightarrow>
          Inr (st\<lparr>db := update_domain domain_id
                     (\<lambda>r. r\<lparr>row_status := Failed, row_error_message := Some (take 500 e),
                             row_worker_id := None, row_locked_at := None\<rparr>)
                     (db st)\<rparr>))"

text \<open>
  \<open>crawl_domain\<close>: \<open>None\<close> when the loop does not end, \<open>Inl\<close> for an exception that
  reaches the caller, \<open>Inr\<close> for the state at the return.
\<close>

definition crawl_domain :: "pylib \<Rightarrow> world \<Rightarrow> nat \<Rightarrow> database \<Rightarrow> nat \<Rightarrow> string \<Rightarrow> string
    \<Rightarrow> (string + crawl) option" where
  "crawl_domain L E max_depth d domain_id url worker =
     (case crawl_try L E max_depth d domain_id url worker of
        None \<Rightarrow> None
      | Some (Inl (e, st)) \<Rightarrow> Some (mark_failed E domain_id e st)
      | Some (Inr st) \<Rightarrow> Some (Inr st))"

section \<open>The REST surface: creating a search\<close>








section \<open>Notions used in the statements\<close>

text \<open>The path expression of \<open>normalize_url\<close>: \<open>parsed.path.rstrip('/') or '/'\<close>.\<close>

definition canon_path :: "string \<Rightarrow> string" where
  "canon_path p = (if rstrip ''/'' p = [] then ''/'' else rstrip ''/'' p)"




text \<open>
  The state of a crawl in which no URL has been fetched twice, and every fetched URL is
  in \<open>visited_urls\<close>.
\<close>

definition fetch_once :: "crawl \<Rightarrow> bool" where
  "fetch_once st = (distinct (fetched st) \<and> set (fetched st) \<subseteq> set (visited_urls st))"

text \<open>The media type test of \<open>fetch_page\<close>, on the lowercased \<open>Content-Type\<close> header.\<close>

definition html_or_plain :: "response \<Rightarrow> bool" where
  "html_or_plain resp =
     (contains ''text/html'' (lower (case content_type resp of None \<Rightarrow> [] | Some v \<Rightarrow> v))
      \<or> contains ''text/plain'' (lower (case content_type resp of None \<Rightarrow> [] | Some v \<Rightarrow> v)))"

text \<open>
  The shape of the host and of the path that \<open>urlparse\<close> finds in a URL starting with
  \<open>http://\<close> or \<open>https://\<close>.
\<close>

definition webpath :: "string \<Rightarrow> bool" where
  "webpath p = ((p = [] \<or> hd p = CHR ''/'') \<and> CHR ''?'' \<notin> set p \<and> CHR ''#'' \<notin> set p
      \<and> (\<forall>c \<in> set p. \<not> unsafe_url_byte c))"

definition webhost :: "string \<Rightarrow> bool" where
  "webhost h = (\<forall>c \<in> set h. netloc_char c \<and> \<not> unsafe_url_byte c)"

section \<open>A small site\<close>

text \<open>
  The inputs on which the functions are run below: a home page with two links, two leaf
  pages, a database with one pending domain, and a world in which nothing fails.
\<close>

definition home_html :: string where
  "home_html = ''<a href=https://a.test/contact>contact</a><a href=https://a.test/blog/2024>blog</a>''"

definition links_html :: string where
  "links_html = ''<a href=https://WWW.a.test/Contact/?ref=1#top>contact</a><a href=/x.pdf>x</a>''"

definition lib0 :: pylib where
  "lib0 = \<lparr>legacy_urlunsplit = False, more_netloc_schemes = [],
           bracketed_netloc_error = (\<lambda>nl. True),
           BeautifulSoup = (\<lambda>html.
              if html = home_html
              then Inr \<lparr>tags = [\<lparr>name = ''a'', href = Some ''https://a.test/contact''\<rparr>,
                                \<lparr>name = ''a'', href = Some ''https://a.test/blog/2024''\<rparr>],
                        get_text = ''contactblog''\<rparr>
              else if html = links_html
              then Inr \<lparr>tags = [\<lparr>name = ''a'', href = Some ''https://WWW.a.test/Contact/?ref=1#top''\<rparr>,
                                \<lparr>name = ''a'', href = Some ''/x.pdf''\<rparr>],
                        get_text = ''contactx''\<rparr>
              else Inr \<lparr>tags = [], get_text = html\<rparr>),
           validate_email = (\<lambda>e. if length (filter (\<lambda>c. c = CHR ''@'') e) = 1 then Some e else None)\<rparr>"

text \<open>The same library with the older \<open>urlunsplit\<close> and the schemes of CPython 3.12.3.\<close>

definition lib1 :: pylib where
  "lib1 = lib0\<lparr>legacy_urlunsplit := True, more_netloc_schemes := [''itms-services'']\<rparr>"

definition ok_page_response :: "string \<Rightarrow> response" where
  "ok_page_response html = \<lparr>status = 200, content_type = Some ''Text/HTML; charset=utf-8'',
                            read_text = Inr html\<rparr>"

definition ok_page :: "string \<Rightarrow> exn + response" where
  "ok_page html = Inr (ok_page_response html)"

definition site :: "string \<Rightarrow> exn + response" where
  "site u =
     (if u = ''https://a.test/'' then ok_page home_html
      else if u = ''https://a.test/contact'' then ok_page ''write to bob [at] sample [dot] org''
      else if u = ''https://a.test/blog/2024'' then ok_page ''news''
      else Inr \<lparr>status = 404, content_type = None, read_text = Inr []\<rparr>)"

definition world0 :: world where
  "world0 = \<lparr>session_get = site, claim_raises = None, page_insert_raises = (\<lambda>u. None),
             flush_raises = None, complete_raises = None, failed_raises = None, now = 0,
             completion_order = (\<lambda>ts. ts)\<rparr>"

definition pending_row :: domain_row where
  "pending_row = \<lparr>row_status = Pending, row_pages_crawled = 0, row_emails_found = 0,
                  row_error_message = None, row_worker_id = None, row_locked_at = None\<rparr>"

definition db0 :: database where
  "db0 = \<lparr>domains = (\<lambda>i. if i = 1 then Some pending_row else None), pages = [], emails = []\<rparr>"

text \<open>A world in which the database is down: the claim raises, and so does the update to \<open>failed\<close>.\<close>

definition db_down :: world where
  "db_down = world0\<lparr>claim_raises := Some ''connection refused'',
                    failed_raises := Some ''connection refused''\<rparr>"

text \<open>A world in which only the claim of the domain raises.\<close>

definition claim_fails :: world where
  "claim_fails = world0\<lparr>claim_raises := Some ''deadlock found''\<rparr>"

section \<open>Properties\<close>

subsection \<open>Strings\<close>

lemma contains_iff: "contains p s \<longleftrightarrow> (\<exists>a b. s = a @ p @ b)"
proof (induction s)
  case Nil
  then show ?case by auto
next
  case (Cons c cs)
  show ?case
  proof
    assume "contains p (c # cs)"
    then consider "startswith (c # cs) p" | "contains p cs" by auto
    then show "\<exists>a b. c # cs = a @ p @ b"
    proof cases
      case 1
      then have "c # cs = [] @ p @ drop (length p) (c # cs)"
        unfolding startswith_def by (metis append_Nil append_take_drop_id)
      then show ?thesis by blast
    next
      case 2
      then obtain a b where "cs = a @ p @ b" using Cons.IH by blast
      then have "c # cs = (c # a) @ p @ b" by simp
      then show ?thesis by blast
    qed
  next
    assume "\<exists>a b. c # cs = a @ p @ b"
    then obtain a b where ab: "c # cs = a @ p @ b" by blast
    show "contains p (c # cs)"
    proof (cases a)
      case Nil
      then have "startswith (c # cs) p" using ab by (simp add: startswith_def)
      then show ?thesis by simp
    next
      case (Cons x xs)
      then have "cs = xs @ p @ b" using ab by simp
      then show ?thesis using Cons.IH by auto
    qed
  qed
qed

lemma replace_absent: "\<not> contains old s \<Longrightarrow> replace old new s = s"
  by (induction old new s rule: replace.induct) auto

lemma set_replace_nil: "set (replace old [] s) \<subseteq> set s"
proof (induction old "[]::string" s rule: replace.induct)
  case (1 old)
  then show ?case by simp
next
  case (2 old c cs)
  show ?case
  proof (cases "old \<noteq> [] \<and> startswith (c # cs) old")
    case True
    then have "set (replace old [] (c # cs)) = set (replace old [] (drop (length old) (c # cs)))"
      by simp
    also have "\<dots> \<subseteq> set (drop (length old) (c # cs))" using 2(1) True by simp
    also have "\<dots> \<subseteq> set (c # cs)" by (rule set_drop_subset)
    finally show ?thesis .
  next
    case False
    then show ?thesis using 2(2) by auto
  qed
qed

lemma lower_char_islower: "isupper c \<Longrightarrow> islower (lower_char c)"
proof -
  assume u: "isupper c"
  have "of_char (char_of (of_char c + (32::nat)) :: char) = (of_char c + (32::nat)) mod 256"
    by (rule of_char_of)
  moreover have "(of_char c + (32::nat)) mod 256 = of_char c + 32"
    using u by (simp add: isupper_def ord_def)
  ultimately show ?thesis using u
    unfolding lower_char_def isupper_def islower_def ord_def by auto
qed

lemma lower_char_not_upper: "\<not> isupper (lower_char c)"
proof (cases "isupper c")
  case True
  then have "islower (lower_char c)" by (rule lower_char_islower)
  then show ?thesis by (simp add: islower_def isupper_def)
next
  case False
  then show ?thesis by (simp add: lower_char_def)
qed

lemma lower_fix: "\<forall>c \<in> set s. \<not> isupper c \<Longrightarrow> lower s = s"
  by (induction s) (auto simp: lower_def lower_char_def)

lemma lower_no_upper: "c \<in> set (lower s) \<Longrightarrow> \<not> isupper c"
  by (auto simp: lower_def lower_char_not_upper)

lemma rstrip_idem: "rstrip cs (rstrip cs s) = rstrip cs s"
proof -
  have "dropWhile P (dropWhile P xs) = dropWhile P xs" for P and xs :: string
    by (metis dropWhile_idem)
  then show ?thesis by (simp add: rstrip_def)
qed

lemma rstrip_hd: "s \<noteq> [] \<Longrightarrow> rstrip cs s \<noteq> [] \<Longrightarrow> hd (rstrip cs s) = hd s"
proof -
  assume a: "s \<noteq> []" "rstrip cs s \<noteq> []"
  have "\<exists>t. s = rstrip cs s @ t"
    unfolding rstrip_def
    by (metis rev_append rev_rev_ident takeWhile_dropWhile_id)
  then obtain t where "s = rstrip cs s @ t" by blast
  then show ?thesis using a by (metis hd_append2)
qed

lemma set_rstrip: "set (rstrip cs s) \<subseteq> set s"
  unfolding rstrip_def by (metis set_dropWhileD set_rev subsetI)

lemma startswith_split: "startswith u p \<Longrightarrow> u = p @ drop (length p) u"
  unfolding startswith_def by (metis append_take_drop_id)

lemma before_absent: "c \<notin> set s \<Longrightarrow> before c s = s"
  unfolding before_def by (induction s) auto

lemma before_prefix: "\<exists>r. s = before c s @ r"
  unfolding before_def by (metis takeWhile_dropWhile_id)

lemma before_notin: "c \<notin> set (before c s)"
  unfolding before_def by (metis (mono_tags, lifting) set_takeWhileD)

lemma set_before: "set (before c s) \<subseteq> set s"
  unfolding before_def by (metis set_takeWhileD subsetI)

subsection \<open>Parsing a web URL\<close>

lemma split_scheme_http: "split_scheme d (''http://'' @ t) = (''http'', ''//'' @ t)"
  by (simp add: split_scheme_def before_def after_def scheme_chars_def isalpha_def islower_def
      isupper_def ord_def lower_def lower_char_def)

lemma split_scheme_https: "split_scheme d (''https://'' @ t) = (''https'', ''//'' @ t)"
  by (simp add: split_scheme_def before_def after_def scheme_chars_def isalpha_def islower_def
      isupper_def ord_def lower_def lower_char_def)

lemma safe_cons: "\<not> unsafe_url_byte c \<Longrightarrow> remove_unsafe_bytes (c # t) = c # remove_unsafe_bytes t"
  by (simp add: remove_unsafe_bytes_def)

lemma safe_set: "c \<in> set (remove_unsafe_bytes t) \<Longrightarrow> \<not> unsafe_url_byte c"
  by (simp add: remove_unsafe_bytes_def)

lemma urlsplit_web:
  assumes "sch = ''http'' \<or> sch = ''https''"
  shows "urlsplit L (sch @ ''://'' @ t) [] =
    (case check_brackets L (takeWhile netloc_char (remove_unsafe_bytes t)) of
       Some e \<Rightarrow> Inl e
     | None \<Rightarrow> Inr \<lparr>scheme = sch, netloc = takeWhile netloc_char (remove_unsafe_bytes t),
          path = fst (split_query (fst (split_fragment (dropWhile netloc_char (remove_unsafe_bytes t))))),
          params = [],
          query = snd (split_query (fst (split_fragment (dropWhile netloc_char (remove_unsafe_bytes t))))),
          fragment = snd (split_fragment (dropWhile netloc_char (remove_unsafe_bytes t)))\<rparr>)"
proof -
  have "urlsplit L (''http://'' @ t) [] =
    (case check_brackets L (takeWhile netloc_char (remove_unsafe_bytes t)) of
       Some e \<Rightarrow> Inl e
     | None \<Rightarrow> Inr \<lparr>scheme = ''http'', netloc = takeWhile netloc_char (remove_unsafe_bytes t),
          path = fst (split_query (fst (split_fragment (dropWhile netloc_char (remove_unsafe_bytes t))))),
          params = [],
          query = snd (split_query (fst (split_fragment (dropWhile netloc_char (remove_unsafe_bytes t))))),
          fragment = snd (split_fragment (dropWhile netloc_char (remove_unsafe_bytes t)))\<rparr>)"
    unfolding urlsplit_def Let_def
    by (simp add: c0_control_or_space_def safe_cons unsafe_url_byte_def ord_def
        split_scheme_http [simplified] splitnetloc_def split: option.splits prod.splits)
  moreover have "urlsplit L (''https://'' @ t) [] =
    (case check_brackets L (takeWhile netloc_char (remove_unsafe_bytes t)) of
       Some e \<Rightarrow> Inl e
     | None \<Rightarrow> Inr \<lparr>scheme = ''https'', netloc = takeWhile netloc_char (remove_unsafe_bytes t),
          path = fst (split_query (fst (split_fragment (dropWhile netloc_char (remove_unsafe_bytes t))))),
          params = [],
          query = snd (split_query (fst (split_fragment (dropWhile netloc_char (remove_unsafe_bytes t))))),
          fragment = snd (split_fragment (dropWhile netloc_char (remove_unsafe_bytes t)))\<rparr>)"
    unfolding urlsplit_def Let_def
    by (simp add: c0_control_or_space_def safe_cons unsafe_url_byte_def ord_def
        split_scheme_https [simplified] splitnetloc_def split: option.splits prod.splits)
  ultimately show ?thesis using assms by auto
qed

lemma add_scheme_form:
  "\<exists>sch t. (sch = ''http'' \<or> sch = ''https'') \<and> add_scheme u = sch @ ''://'' @ t"
proof -
  have a: "startswith u ''http://'' \<Longrightarrow> u = ''http'' @ ''://'' @ drop (length ''http://'') u"
    using startswith_split [of u "''http://''"] by simp
  have b: "startswith u ''https://'' \<Longrightarrow> u = ''https'' @ ''://'' @ drop (length ''https://'') u"
    using startswith_split [of u "''https://''"] by simp
  show ?thesis
  proof (cases "startswith u ''http://''")
    case True
    then have "add_scheme u = ''http'' @ ''://'' @ drop (length ''http://'') u"
      using a by (simp add: add_scheme_def)
    then show ?thesis by blast
  next
    case False
    show ?thesis
    proof (cases "startswith u ''https://''")
      case True
      then have "add_scheme u = ''https'' @ ''://'' @ drop (length ''https://'') u"
        using b \<open>\<not> startswith u ''http://''\<close> by (simp add: add_scheme_def)
      then show ?thesis by blast
    next
      case False
      then have "add_scheme u = ''https'' @ ''://'' @ u"
        using \<open>\<not> startswith u ''http://''\<close> by (simp add: add_scheme_def)
      then show ?thesis by blast
    qed
  qed
qed

lemma add_scheme_fix:
  "sch = ''http'' \<or> sch = ''https'' \<Longrightarrow> add_scheme (sch @ ''://'' @ t) = sch @ ''://'' @ t"
  by (auto simp: add_scheme_def startswith_def)

lemma fst_split_fragment: "fst (split_fragment s) = before CHR ''#'' s"
  by (simp add: split_fragment_def before_absent)

lemma fst_split_query: "fst (split_query s) = before CHR ''?'' s"
  by (simp add: split_query_def before_absent)

lemma splitparams_prefix: "\<exists>r. s = fst (splitparams s) @ r"
proof (cases "CHR '';'' \<in> set (last_segment s)")
  case True
  have a: "s = take (length s - length (last_segment s)) s @ last_segment s"
  proof -
    have "rev s = takeWhile (\<lambda>c. c \<noteq> CHR ''/'') (rev s) @ dropWhile (\<lambda>c. c \<noteq> CHR ''/'') (rev s)"
      by simp
    then have "s = rev (dropWhile (\<lambda>c. c \<noteq> CHR ''/'') (rev s)) @ last_segment s"
      unfolding last_segment_def by (metis rev_append rev_rev_ident)
    then show ?thesis
      by (metis append_eq_conv_conj length_append add_diff_cancel_right')
  qed
  obtain r where "last_segment s = before CHR '';'' (last_segment s) @ r"
    using before_prefix by blast
  then have "s = (take (length s - length (last_segment s)) s @ before CHR '';'' (last_segment s)) @ r"
    using a by (metis append.assoc)
  then show ?thesis using True unfolding splitparams_def by auto
next
  case False
  then show ?thesis by (simp add: splitparams_def)
qed

lemma webpath_prefix: "webpath (p @ r) \<Longrightarrow> webpath p"
  unfolding webpath_def by (cases p) auto

lemma webhost_take: "webhost (takeWhile netloc_char (remove_unsafe_bytes t))"
  unfolding webhost_def by (metis safe_set set_takeWhileD)

lemma webpath_rest:
  "webpath (before CHR ''?'' (before CHR ''#'' (dropWhile netloc_char (remove_unsafe_bytes t))))"
proof -
  let ?d = "dropWhile netloc_char (remove_unsafe_bytes t)"
  let ?p = "before CHR ''?'' (before CHR ''#'' ?d)"
  have 1: "CHR ''?'' \<notin> set ?p" by (rule before_notin)
  have 2: "CHR ''#'' \<notin> set ?p" using set_before before_notin by (metis subsetD)
  have "set ?p \<subseteq> set ?d" using set_before by (metis subset_trans)
  then have 3: "\<forall>c \<in> set ?p. \<not> unsafe_url_byte c"
    by (metis safe_set set_dropWhileD subsetD)
  have 4: "?p = [] \<or> hd ?p = CHR ''/''"
  proof (cases ?d)
    case Nil
    show ?thesis unfolding Nil by (simp add: before_def)
  next
    case (Cons c cs)
    then have "\<not> netloc_char c" by (metis hd_dropWhile list.sel(1) list.distinct(1))
    then have "c = CHR ''/'' \<or> c = CHR ''?'' \<or> c = CHR ''#''" by (auto simp: netloc_char_def)
    then show ?thesis unfolding Cons by (auto simp: before_def)
  qed
  show ?thesis unfolding webpath_def using 1 2 3 4 by blast
qed

lemma urlparse_web:
  assumes "sch = ''http'' \<or> sch = ''https''"
    and "urlparse L (sch @ ''://'' @ t) [] = Inr p"
  shows "scheme p = sch \<and> webhost (netloc p) \<and> webpath (path p)"
proof -
  let ?p0 = "before CHR ''?'' (before CHR ''#'' (dropWhile netloc_char (remove_unsafe_bytes t)))"
  from assms(2) obtain r where r: "urlsplit L (sch @ ''://'' @ t) [] = Inr r"
    and p: "p = r \<or> p = r\<lparr>path := fst (splitparams (path r)), params := snd (splitparams (path r))\<rparr>"
    unfolding urlparse_def by (auto split: sum.splits if_splits)
  from r have s: "scheme r = sch" and n: "netloc r = takeWhile netloc_char (remove_unsafe_bytes t)"
    and pa: "path r = ?p0"
    unfolding urlsplit_web [OF assms(1)]
    by (auto split: option.splits simp: fst_split_fragment fst_split_query)
  have wp: "webpath (path r)" using pa webpath_rest by simp
  obtain x where "path r = fst (splitparams (path r)) @ x" using splitparams_prefix by blast
  then have "webpath (fst (splitparams (path r)))" using wp webpath_prefix by metis
  then show ?thesis using p s n wp webhost_take by auto
qed

lemma web_scheme_uses_netloc:
  "sch = ''http'' \<or> sch = ''https'' \<Longrightarrow> sch \<noteq> [] \<and> sch \<in> set (uses_netloc L)"
  by (elim disjE) (simp_all add: uses_netloc_def)

lemma urlunparse_web:
  assumes "sch = ''http'' \<or> sch = ''https''" and "p \<noteq> []" and "hd p = CHR ''/''"
  shows "urlunparse L sch nl p [] [] [] =
     (if nl = [] \<and> take 2 p = ''//'' \<and> legacy_urlunsplit L then sch @ '':'' @ p
      else sch @ ''://'' @ nl @ p)"
proof -
  obtain cs where p: "p = CHR ''/'' # cs" using assms(2,3) by (cases p) auto
  note s = web_scheme_uses_netloc [OF assms(1), of L]
  have t: "take 1 p = ''/''" using p by simp
  have w: "writes_netloc L sch nl p = (\<not> (nl = [] \<and> take 2 p = ''//'' \<and> legacy_urlunsplit L))"
    unfolding writes_netloc_def using s by auto
  have ne: "sch \<noteq> []" using s by simp
  show ?thesis
  proof (cases "nl = [] \<and> take 2 p = ''//'' \<and> legacy_urlunsplit L")
    case True
    then have "\<not> writes_netloc L sch nl p" using w by simp
    then show ?thesis using True ne by (simp add: urlunparse_def urlunsplit_def)
  next
    case False
    then have "writes_netloc L sch nl p" using w by simp
    then show ?thesis using False ne t assms(2) by (simp add: urlunparse_def urlunsplit_def)
  qed
qed

lemma canon_path_web:
  assumes "webpath p"
  shows "canon_path p \<noteq> [] \<and> hd (canon_path p) = CHR ''/'' \<and> webpath (canon_path p)
     \<and> set (canon_path p) \<subseteq> insert CHR ''/'' (set p)"
proof (cases "rstrip ''/'' p = []")
  case True
  then show ?thesis by (simp add: canon_path_def webpath_def unsafe_url_byte_def ord_def)
next
  case False
  then have ne: "p \<noteq> []" by (auto simp: rstrip_def)
  then have "hd (rstrip ''/'' p) = hd p" using False rstrip_hd by blast
  moreover have "hd p = CHR ''/''" using assms ne by (simp add: webpath_def)
  moreover have "set (rstrip ''/'' p) \<subseteq> set p" by (rule set_rstrip)
  ultimately show ?thesis using False assms
    by (auto simp: canon_path_def webpath_def)
qed

lemma canon_path_idem: "canon_path (canon_path x) = canon_path x"
proof (cases "rstrip ''/'' x = []")
  case True
  have "rstrip ''/'' ''/'' = []" by (simp add: rstrip_def)
  then show ?thesis using True by (simp add: canon_path_def)
next
  case False
  then show ?thesis by (simp add: canon_path_def rstrip_idem)
qed

lemma letter_host: "isupper c \<or> islower c \<Longrightarrow> netloc_char c \<and> \<not> unsafe_url_byte c"
  by (auto simp: isupper_def islower_def netloc_char_def unsafe_url_byte_def ord_def)

lemma lower_char_host:
  "netloc_char c \<and> \<not> unsafe_url_byte c
   \<Longrightarrow> netloc_char (lower_char c) \<and> \<not> unsafe_url_byte (lower_char c)"
  by (metis letter_host lower_char_def lower_char_islower)

lemma webhost_canon: "webhost h \<Longrightarrow> webhost (replace ''www.'' [] (lower h))"
proof -
  assume h: "webhost h"
  have "webhost (lower h)"
    using h lower_char_host unfolding webhost_def lower_def by auto
  then show ?thesis
    using set_replace_nil [of "''www.''" "lower h"] unfolding webhost_def by blast
qed

lemma canon_host_lower: "lower (replace ''www.'' [] (lower h)) = replace ''www.'' [] (lower h)"
proof (rule lower_fix)
  show "\<forall>c\<in>set (replace ''www.'' [] (lower h)). \<not> isupper c"
    using set_replace_nil [of "''www.''" "lower h"] lower_no_upper by blast
qed

lemma normalize_url_parsed:
  assumes "raw \<noteq> []" and "urlparse L (add_scheme raw) [] = Inr p"
  shows "(scheme p = ''http'' \<or> scheme p = ''https'')
     \<and> webhost (netloc p) \<and> webpath (path p)
     \<and> normalize_url L raw =
         (if replace ''www.'' [] (lower (netloc p)) = [] \<and> take 2 (canon_path (path p)) = ''//''
             \<and> legacy_urlunsplit L
          then scheme p @ '':'' @ canon_path (path p)
          else scheme p @ ''://'' @ replace ''www.'' [] (lower (netloc p)) @ canon_path (path p))"
proof -
  obtain sch t where st: "sch = ''http'' \<or> sch = ''https''" "add_scheme raw = sch @ ''://'' @ t"
    using add_scheme_form by blast
  have w: "scheme p = sch \<and> webhost (netloc p) \<and> webpath (path p)"
    using urlparse_web [OF st(1)] assms(2) st(2) by simp
  then have c: "canon_path (path p) \<noteq> []" "hd (canon_path (path p)) = CHR ''/''"
    using canon_path_web by blast+
  have sp: "scheme p = ''http'' \<or> scheme p = ''https''" using w st(1) by simp
  have "normalize_url L raw
      = urlunparse L (scheme p) (replace ''www.'' [] (lower (netloc p))) (canon_path (path p)) [] [] []"
    using assms by (simp add: normalize_url_def canon_path_def Let_def)
  also have "\<dots> =
         (if replace ''www.'' [] (lower (netloc p)) = [] \<and> take 2 (canon_path (path p)) = ''//''
             \<and> legacy_urlunsplit L
          then scheme p @ '':'' @ canon_path (path p)
          else scheme p @ ''://'' @ replace ''www.'' [] (lower (netloc p)) @ canon_path (path p))"
    using sp c by (rule urlunparse_web)
  finally show ?thesis using w sp by simp
qed



lemma urlparse_canonical:
  assumes s: "sch = ''http'' \<or> sch = ''https''" and h: "webhost h" and p: "webpath p"
    and p1: "p \<noteq> []" "hd p = CHR ''/''" and semi: "CHR '';'' \<notin> set p"
  shows "urlparse L (sch @ ''://'' @ h @ p) [] =
     (case check_brackets L h of
        Some e \<Rightarrow> Inl e
      | None \<Rightarrow> Inr \<lparr>scheme = sch, netloc = h, path = p, params = [], query = [], fragment = []\<rparr>)"
proof -
  have sf: "remove_unsafe_bytes (h @ p) = h @ p"
    using h p unfolding webhost_def webpath_def remove_unsafe_bytes_def by (auto simp: filter_id_conv)
  obtain cs where cs: "p = CHR ''/'' # cs" using p1 by (cases p) auto
  have hn: "\<forall>c \<in> set h. netloc_char c" using h by (simp add: webhost_def)
  have tk: "takeWhile netloc_char (h @ p) = h"
    using hn cs by (simp add: takeWhile_append2 netloc_char_def)
  have dr: "dropWhile netloc_char (h @ p) = p"
    using hn cs by (simp add: dropWhile_append2 netloc_char_def)
  have fr: "split_fragment p = (p, [])" using p by (simp add: split_fragment_def webpath_def)
  have qu: "split_query p = (p, [])" using p by (simp add: split_query_def webpath_def)
  show ?thesis
    unfolding urlparse_def urlsplit_web [OF s] sf tk dr
    using semi by (simp add: fr qu split: option.splits)
qed

subsection \<open>The canonical form of a URL\<close>

text \<open>
  C10. \<open>normalize_url\<close> returns an empty input as it is: nothing is put in front and
  nothing is parsed, so \<open>normalize_url("") = ""\<close>. The empty string is the only falsy
  \<open>str\<close>.
\<close>

theorem normalize_url_empty: "normalize_url L [] = []"
  by (simp add: normalize_url_def)




text \<open>
  C4, as the code has it. Normalizing twice gives the same as normalizing once whenever
  the normal form holds no \<open>www.\<close> and no \<open>;\<close> and, where \<open>urlunsplit\<close> has the older
  form, the input does not have both an empty host (after lowercasing and the removal of
  \<open>www.\<close>) and a path that starts with \<open>//\<close>. Inputs that fail to parse are covered, and
  so is the empty input.
\<close>

theorem normalize_url_idempotent:
  assumes "\<not> contains ''www.'' (normalize_url L u)" and "CHR '';'' \<notin> set (normalize_url L u)"
    and "case urlparse L (add_scheme u) [] of
           Inl e \<Rightarrow> True
         | Inr p \<Rightarrow> replace ''www.'' [] (lower (netloc p)) \<noteq> []
                     \<or> take 2 (canon_path (path p)) \<noteq> ''//'' \<or> \<not> legacy_urlunsplit L"
  shows "normalize_url L (normalize_url L u) = normalize_url L u"
proof (cases "u = []")
  case True
  then show ?thesis by (simp add: normalize_url_def)
next
  case False
  obtain sch t where st: "sch = ''http'' \<or> sch = ''https''" "add_scheme u = sch @ ''://'' @ t"
    using add_scheme_form by blast
  show ?thesis
  proof (cases "urlparse L (add_scheme u) []")
    case (Inl e)
    then have r: "normalize_url L u = sch @ ''://'' @ t"
      using False st by (simp add: normalize_url_def)
    have "add_scheme (sch @ ''://'' @ t) = sch @ ''://'' @ t" using st(1) by (rule add_scheme_fix)
    then have "normalize_url L (sch @ ''://'' @ t) = sch @ ''://'' @ t"
      using Inl st by (simp add: normalize_url_def)
    then show ?thesis using r by simp
  next
    case (Inr p)
    let ?h = "replace ''www.'' [] (lower (netloc p))"
    let ?p = "canon_path (path p)"
    note n = normalize_url_parsed [OF False Inr]
    have full: "\<not> (?h = [] \<and> take 2 ?p = ''//'' \<and> legacy_urlunsplit L)"
      using assms(3) unfolding Inr by auto
    have r: "normalize_url L u = scheme p @ ''://'' @ ?h @ ?p"
      using full n by simp
    have sp: "scheme p = ''http'' \<or> scheme p = ''https''" using n by blast
    have wh: "webhost ?h" using n webhost_canon by blast
    have wp: "webpath ?p" "?p \<noteq> []" "hd ?p = CHR ''/''" using n canon_path_web by blast+
    have semi: "CHR '';'' \<notin> set ?p" using assms(2) unfolding r by simp
    have nw: "\<not> contains ''www.'' ?h"
      using assms(1) unfolding r contains_iff by (metis append.assoc)
    have fx: "add_scheme (scheme p @ ''://'' @ ?h @ ?p) = scheme p @ ''://'' @ ?h @ ?p"
      using sp by (rule add_scheme_fix)
    have ne: "scheme p @ ''://'' @ ?h @ ?p \<noteq> []" by simp
    have pr: "urlparse L (scheme p @ ''://'' @ ?h @ ?p) [] =
       (case check_brackets L ?h of
          Some e \<Rightarrow> Inl e
        | None \<Rightarrow> Inr \<lparr>scheme = scheme p, netloc = ?h, path = ?p, params = [], query = [], fragment = []\<rparr>)"
      using urlparse_canonical [OF sp wh wp(1) wp(2) wp(3) semi] .
    have h2: "replace ''www.'' [] (lower ?h) = ?h"
      using canon_host_lower replace_absent nw by simp
    have p2: "canon_path ?p = ?p" by (rule canon_path_idem)
    have "normalize_url L (scheme p @ ''://'' @ ?h @ ?p) = scheme p @ ''://'' @ ?h @ ?p"
    proof (cases "check_brackets L ?h")
      case None
      then have "normalize_url L (scheme p @ ''://'' @ ?h @ ?p)
          = urlunparse L (scheme p) (replace ''www.'' [] (lower ?h)) (canon_path ?p) [] [] []"
        unfolding normalize_url_def fx pr using ne by (simp add: canon_path_def Let_def)
      also have "\<dots> = urlunparse L (scheme p) ?h ?p [] [] []" using h2 p2 by simp
      also have "\<dots> = (if ?h = [] \<and> take 2 ?p = ''//'' \<and> legacy_urlunsplit L
                          then scheme p @ '':'' @ ?p else scheme p @ ''://'' @ ?h @ ?p)"
        using sp wp(2) wp(3) by (rule urlunparse_web)
      also have "\<dots> = scheme p @ ''://'' @ ?h @ ?p" using full by simp
      finally show ?thesis .
    next
      case (Some e)
      then show ?thesis unfolding normalize_url_def fx pr using ne by simp
    qed
    then show ?thesis using r by simp
  qed
qed

theorem normalize_url_idempotent_witness:
  "\<not> contains ''www.'' (normalize_url lib1 ''www.Example.COM/Jobs/?x=1#top'')
   \<and> CHR '';'' \<notin> set (normalize_url lib1 ''www.Example.COM/Jobs/?x=1#top'')
   \<and> normalize_url lib1 (normalize_url lib1 ''www.Example.COM/Jobs/?x=1#top'')
      = normalize_url lib1 ''www.Example.COM/Jobs/?x=1#top''
   \<and> normalize_url lib1 ''www.Example.COM/Jobs/?x=1#top'' = ''https://example.com/Jobs''"
proof -
  have a: "\<not> contains ''www.'' (normalize_url lib1 ''www.Example.COM/Jobs/?x=1#top'')"
    by code_simp
  have b: "CHR '';'' \<notin> set (normalize_url lib1 ''www.Example.COM/Jobs/?x=1#top'')"
    by code_simp
  have c: "case urlparse lib1 (add_scheme ''www.Example.COM/Jobs/?x=1#top'') [] of
           Inl e \<Rightarrow> True
         | Inr p \<Rightarrow> replace ''www.'' [] (lower (netloc p)) \<noteq> []
                     \<or> take 2 (canon_path (path p)) \<noteq> ''//'' \<or> \<not> legacy_urlunsplit lib1"
    by code_simp
  have v: "normalize_url lib1 ''www.Example.COM/Jobs/?x=1#top'' = ''https://example.com/Jobs''"
    by code_simp
  show ?thesis using normalize_url_idempotent [OF a b c] a b v by (simp only: simp_thms)
qed

text \<open>
  C4 as the specification states it fails, in three ways. Removing \<open>www.\<close> from
  \<open>wwww.ww.a.com\<close> leaves \<open>www.a.com\<close>, which the second pass shortens again. The path
  \<open>/b;p/\<close> loses its slash in the first pass and its parameters \<open>;p\<close> in the second. With
  the older \<open>urlunsplit\<close>, \<open>//x\<close> has an empty host and the path \<open>//x\<close>, which is written
  as \<open>https://x\<close>, where \<open>x\<close> is the host for the second pass.
\<close>

theorem normalize_url_not_idempotent:
  "normalize_url lib0 ''wwww.ww.a.com'' = ''https://www.a.com/''
   \<and> normalize_url lib0 (normalize_url lib0 ''wwww.ww.a.com'') = ''https://a.com/''
   \<and> normalize_url lib0 (normalize_url lib0 ''wwww.ww.a.com'') \<noteq> normalize_url lib0 ''wwww.ww.a.com''
   \<and> normalize_url lib1 ''wwww.ww.a.com'' = ''https://www.a.com/''
   \<and> normalize_url lib1 (normalize_url lib1 ''wwww.ww.a.com'') = ''https://a.com/''
   \<and> normalize_url lib0 ''http://a.com/b;p/'' = ''http://a.com/b;p''
   \<and> normalize_url lib0 (normalize_url lib0 ''http://a.com/b;p/'') = ''http://a.com/b''
   \<and> normalize_url lib1 ''http://a.com/b;p/'' = ''http://a.com/b;p''
   \<and> normalize_url lib1 (normalize_url lib1 ''http://a.com/b;p/'') = ''http://a.com/b''
   \<and> normalize_url lib1 ''//x'' = ''https://x''
   \<and> normalize_url lib1 (normalize_url lib1 ''//x'') = ''https://x/''"
  by code_simp

subsection \<open>Fetching a page\<close>

text \<open>
  C5. \<open>fetch_page\<close> always returns a pair and never an exception. When the request
  raises (timeout, client error, anything else), or reading the body of an accepted
  response raises, the pair is (absent, 0). For a response whose body can be read, the
  status of the pair is the HTTP status, and the body is present if and only if the status
  is 200 and the \<open>Content-Type\<close> header, compared without regard to case, contains
  \<open>text/html\<close> or \<open>text/plain\<close>; a present body therefore always comes with status 200
  and such a header.
\<close>

theorem fetch_page_contract:
  "(\<exists>b s. fetch_page g u = Inr (b, s))
   \<and> (\<forall>e. g u = Inl e \<longrightarrow> fetch_page g u = Inr (None, 0))
   \<and> (\<forall>resp e. g u = Inr resp \<and> status resp = 200 \<and> html_or_plain resp \<and> read_text resp = Inl e
         \<longrightarrow> fetch_page g u = Inr (None, 0))
   \<and> (\<forall>resp t. g u = Inr resp \<and> read_text resp = Inr t
         \<longrightarrow> fetch_page g u
             = Inr (if status resp = 200 \<and> html_or_plain resp then Some t else None, status resp))
   \<and> (\<forall>t s. fetch_page g u = Inr (Some t, s)
         \<longrightarrow> s = 200 \<and> (\<exists>resp. g u = Inr resp \<and> status resp = 200 \<and> html_or_plain resp
                               \<and> read_text resp = Inr t))"
proof (intro conjI allI impI)
  show "\<exists>b s. fetch_page g u = Inr (b, s)"
    unfolding fetch_page_def by (auto split: sum.splits exn.splits)
next
  fix e assume "g u = Inl e"
  then show "fetch_page g u = Inr (None, 0)"
    unfolding fetch_page_def fetch_page_try_def by (cases e) simp_all
next
  fix resp e
  assume "g u = Inr resp \<and> status resp = 200 \<and> html_or_plain resp \<and> read_text resp = Inl e"
  then show "fetch_page g u = Inr (None, 0)"
    unfolding fetch_page_def fetch_page_try_def html_or_plain_def by (cases e) simp_all
next
  fix resp t
  assume "g u = Inr resp \<and> read_text resp = Inr t"
  then show "fetch_page g u
      = Inr (if status resp = 200 \<and> html_or_plain resp then Some t else None, status resp)"
    unfolding fetch_page_def fetch_page_try_def html_or_plain_def by simp
next
  fix t s
  assume a: "fetch_page g u = Inr (Some t, s)"
  then obtain resp where r: "g u = Inr resp"
    unfolding fetch_page_def fetch_page_try_def
    by (cases "g u") (auto split: exn.splits)
  from a r have b: "status resp = 200 \<and> html_or_plain resp"
    unfolding fetch_page_def fetch_page_try_def html_or_plain_def
    by (auto split: if_splits sum.splits exn.splits simp: Let_def)
  from a r b have c: "read_text resp = Inr t \<and> s = 200"
    unfolding fetch_page_def fetch_page_try_def html_or_plain_def
    by (auto split: sum.splits exn.splits simp: Let_def)
  show "s = 200" using c by simp
  show "\<exists>resp. g u = Inr resp \<and> status resp = 200 \<and> html_or_plain resp \<and> read_text resp = Inr t"
    using r b c by blast
qed

theorem fetch_page_contract_witness:
  "fetch_page site ''https://a.test/contact'' = Inr (Some ''write to bob [at] sample [dot] org'', 200)
   \<and> fetch_page site ''https://a.test/missing'' = Inr (None, 404)
   \<and> fetch_page (\<lambda>u. Inl TimeoutError) ''https://a.test/'' = Inr (None, 0)"
proof -
  let ?r = "ok_page_response ''write to bob [at] sample [dot] org''"
  let ?m = "\<lparr>status = 404, content_type = None, read_text = Inr []\<rparr>"
  have g: "site ''https://a.test/contact'' = Inr ?r
      \<and> read_text ?r = Inr ''write to bob [at] sample [dot] org''"
    by (simp add: site_def ok_page_def ok_page_response_def)
  have h1: "status ?r = 200"
    by (simp add: ok_page_response_def)
  have h2: "html_or_plain ?r"
    by code_simp
  have m: "site ''https://a.test/missing'' = Inr ?m \<and> read_text ?m = Inr []"
    by (simp add: site_def)
  have t: "(\<lambda>u. Inl TimeoutError :: exn + response) ''https://a.test/'' = Inl TimeoutError"
    by simp
  note readable = fetch_page_contract
    [THEN conjunct2, THEN conjunct2, THEN conjunct2, THEN conjunct1, rule_format]
  note raised = fetch_page_contract [THEN conjunct2, THEN conjunct1, rule_format]
  have 1: "fetch_page site ''https://a.test/contact''
      = Inr (Some ''write to bob [at] sample [dot] org'', 200)"
    using readable [where g = site and u = "''https://a.test/contact''", OF g] by (simp only: h1 h2 simp_thms if_True)
  have 2: "fetch_page site ''https://a.test/missing'' = Inr (None, 404)"
    using readable [where g = site and u = "''https://a.test/missing''", OF m] by simp
  have 3: "fetch_page (\<lambda>u. Inl TimeoutError) ''https://a.test/'' = Inr (None, 0)"
    using raised [where g = "\<lambda>u. Inl TimeoutError" and u = "''https://a.test/''", OF t] .
  show ?thesis using 1 2 3 by (simp only: simp_thms)
qed
subsection \<open>Creating a search\<close>



subsection \<open>Links\<close>















subsection \<open>Addresses\<close>









subsection \<open>The crawl of one domain\<close>

lemma bfs_loop_small:
  assumes "length tasks + length (queue st) < 50"
  shows "bfs_loop L E max_depth domain_id base_domain tasks st
           = Some (tasks @ queue st, st\<lparr>queue := []\<rparr>)"
proof (cases "queue st = []")
  case True
  then have "st\<lparr>queue := []\<rparr> = st" by simp
  then show ?thesis using True by (subst bfs_loop.simps) simp
next
  case False
  have t: "take 50 (queue st) = queue st" "drop 50 (queue st) = []" using assms by simp_all
  have "bfs_loop L E max_depth domain_id base_domain tasks st
      = bfs_loop L E max_depth domain_id base_domain (tasks @ queue st) (st\<lparr>queue := []\<rparr>)"
    using False assms by (subst bfs_loop.simps) (simp add: t)
  also have "\<dots> = Some (tasks @ queue st, st\<lparr>queue := []\<rparr>)"
    by (subst bfs_loop.simps) simp
  finally show ?thesis .
qed

lemma bfs_loop_initial:
  "bfs_loop L E max_depth domain_id base_domain [] (initial_crawl d url)
     = Some ([(0, url)], (initial_crawl d url)\<lparr>queue := []\<rparr>)"
  using bfs_loop_small [of "[]" "initial_crawl d url"] by (simp add: initial_crawl_def)

lemma finish_task_frame:
  "fetched (finish_task L E max_depth domain_id base_domain task st) = fetched st
   \<and> visited_urls (finish_task L E max_depth domain_id base_domain task st) = visited_urls st"
  unfolding finish_task_def enqueue_links_def Let_def
  by (simp split: sum.splits prod.splits)

lemma fold_finish_frame:
  "fetched (fold (finish_task L E max_depth domain_id base_domain) ts st) = fetched st
   \<and> visited_urls (fold (finish_task L E max_depth domain_id base_domain) ts st) = visited_urls st"
  by (induction ts arbitrary: st) (simp_all add: finish_task_frame)

lemma start_tasks_once:
  assumes "fetch_once st" and "start_tasks max_depth ts st = (started, st')"
  shows "fetch_once st'"
  using assms
proof (induction ts arbitrary: st started st')
  case Nil
  then show ?case by simp
next
  case (Cons t ts)
  obtain depth u where t: "t = (depth, u)" by (cases t)
  show ?case
  proof (cases "depth > max_depth \<or> u \<in> set (visited_urls st)")
    case True
    then have "start_tasks max_depth ts st = (started, st')" using Cons.prems(2) t by simp
    then show ?thesis using Cons.IH Cons.prems(1) by blast
  next
    case False
    let ?st = "st\<lparr>visited_urls := set_add (visited_urls st) u, fetched := fetched st @ [u]\<rparr>"
    have "u \<notin> set (fetched st)" using False Cons.prems(1) unfolding fetch_once_def by blast
    then have f: "fetch_once ?st"
      using Cons.prems(1) False unfolding fetch_once_def set_add_def by auto
    obtain s1 st1 where r: "start_tasks max_depth ts ?st = (s1, st1)"
      by (cases "start_tasks max_depth ts ?st")
    then have "st' = st1" using Cons.prems(2) t False by simp
    then show ?thesis using Cons.IH [OF f r] by simp
  qed
qed

lemma gather_once:
  assumes "fetch_once st"
  shows "fetch_once (gather L E max_depth domain_id base_domain tasks st)"
proof -
  obtain started st1 where s: "start_tasks max_depth tasks st = (started, st1)"
    by (cases "start_tasks max_depth tasks st")
  have "fetch_once st1" using start_tasks_once [OF assms s] .
  then have "fetch_once (fold (finish_task L E max_depth domain_id base_domain)
                           (completion_order E started) st1)"
    unfolding fetch_once_def using fold_finish_frame by simp
  then show ?thesis unfolding gather_def s by simp
qed

lemma start_tasks_visited:
  "u \<in> set (visited_urls st) \<Longrightarrow> start_tasks max_depth [(depth, u)] st = ([], st)"
  by simp

lemma bfs_loop_once:
  assumes "bfs_loop L E max_depth domain_id base_domain tasks st = Some r"
    and "fetch_once st"
  shows "fetch_once (snd r)"
proof -
  have "fetch_once st \<longrightarrow> fetch_once (snd r)"
  proof (rule bfs_loop.raw_induct
      [where P = "\<lambda>L E md did bd tasks st r. fetch_once st \<longrightarrow> fetch_once (snd r)", OF _ assms(1)])
    fix loop :: "pylib \<Rightarrow> world \<Rightarrow> nat \<Rightarrow> nat \<Rightarrow> string \<Rightarrow> (nat \<times> string) list \<Rightarrow> crawl
                   \<Rightarrow> ((nat \<times> string) list \<times> crawl) option"
    fix L E max_depth domain_id base_domain tasks st r
    assume IH: "\<And>L E max_depth domain_id base_domain tasks st y.
        loop L E max_depth domain_id base_domain tasks st = Some y
        \<Longrightarrow> fetch_once st \<longrightarrow> fetch_once (snd y)"
    assume body: "(if queue st = [] then Some (tasks, st)
      else if 50 \<le> length (tasks @ take 50 (queue st))
           then loop L E max_depth domain_id base_domain []
                 (gather L E max_depth domain_id base_domain (tasks @ take 50 (queue st))
                   (st\<lparr>queue := drop 50 (queue st)\<rparr>))
           else loop L E max_depth domain_id base_domain (tasks @ take 50 (queue st))
                 (st\<lparr>queue := drop 50 (queue st)\<rparr>)) = Some r"
    show "fetch_once st \<longrightarrow> fetch_once (snd r)"
    proof
      assume f: "fetch_once st"
      have q: "fetch_once (st\<lparr>queue := drop 50 (queue st)\<rparr>)" using f by (simp add: fetch_once_def)
      show "fetch_once (snd r)"
      proof (cases "queue st = []")
        case True
        then show ?thesis using body f by auto
      next
        case False
        show ?thesis
        proof (cases "50 \<le> length (tasks @ take 50 (queue st))")
          case True
          then have "loop L E max_depth domain_id base_domain []
               (gather L E max_depth domain_id base_domain (tasks @ take 50 (queue st))
                  (st\<lparr>queue := drop 50 (queue st)\<rparr>)) = Some r"
            using body by (simp only: False True if_True if_False)
          from IH [OF this] gather_once [OF q] show ?thesis by blast
        next
          case no: False
          then have "loop L E max_depth domain_id base_domain (tasks @ take 50 (queue st))
               (st\<lparr>queue := drop 50 (queue st)\<rparr>) = Some r"
            using body by (simp only: False no if_False)
          from IH [OF this] q show ?thesis by blast
        qed
      qed
    qed
  qed
  then show ?thesis using assms(2) by simp
qed

lemma flush_emails_frame:
  "fetched (flush_emails E domain_id st) = fetched st
   \<and> visited_urls (flush_emails E domain_id st) = visited_urls st"
  unfolding flush_emails_def by (simp split: option.splits)

lemma crawl_try_value:
  "crawl_try L E max_depth d domain_id url worker =
     (case claim_raises E of
        Some e \<Rightarrow> Some (Inl (e, initial_crawl d url))
      | None \<Rightarrow>
          (let st = (initial_crawl
                      (update_domain domain_id
                         (\<lambda>r. r\<lparr>row_status := Crawling, row_worker_id := Some worker,
                                 row_locked_at := Some (now E)\<rparr>) d) url)\<lparr>queue := []\<rparr>;
               st2 = flush_emails E domain_id
                       (gather L E max_depth domain_id (extract_domain L url) [(0, url)] st)
           in case complete_raises E of
                Some e \<Rightarrow> Some (Inl (e, st2))
              | None \<Rightarrow>
                  Some (Inr (st2\<lparr>db := update_domain domain_id
                                (\<lambda>r. r\<lparr>row_status := Completed,
                                        row_pages_crawled := length (visited_urls st2),
                                        row_emails_found := length (emails_found st2),
                                        row_worker_id := None, row_locked_at := None\<rparr>)
                                (db st2)\<rparr>))))"
  unfolding crawl_try_def bfs_loop_initial by (simp add: Let_def split: option.splits)

lemma crawl_try_returns: "\<exists>r. crawl_try L E max_depth d domain_id url worker = Some r"
  unfolding crawl_try_value by (simp add: Let_def split: option.splits)

lemma crawl_try_once:
  assumes "crawl_try L E max_depth d domain_id url worker = Some r"
  shows "fetch_once (case r of Inl (e, st) \<Rightarrow> st | Inr st \<Rightarrow> st)"
proof -
  let ?st = "(initial_crawl
                (update_domain domain_id
                   (\<lambda>r. r\<lparr>row_status := Crawling, row_worker_id := Some worker,
                           row_locked_at := Some (now E)\<rparr>) d) url)\<lparr>queue := []\<rparr>"
  let ?g = "gather L E max_depth domain_id (extract_domain L url) [(0, url)] ?st"
  have i: "fetch_once (initial_crawl d url)" by (simp add: fetch_once_def initial_crawl_def)
  have "fetch_once ?st" by (simp add: fetch_once_def initial_crawl_def)
  then have "fetch_once ?g" by (rule gather_once)
  then have f: "fetch_once (flush_emails E domain_id ?g)"
    unfolding fetch_once_def using flush_emails_frame by simp
  then have f': "fetch_once ((flush_emails E domain_id ?g)\<lparr>db := x\<rparr>)" for x
    by (simp add: fetch_once_def)
  show ?thesis
    using assms i f f' unfolding crawl_try_value
    by (auto simp: Let_def split: option.splits)
qed

lemma mark_failed_frame:
  "mark_failed E domain_id e st = Inr st
   \<or> mark_failed E domain_id e st
        = Inr (st\<lparr>db := update_domain domain_id
                  (\<lambda>r. r\<lparr>row_status := Failed, row_error_message := Some (take 500 e),
                          row_worker_id := None, row_locked_at := None\<rparr>) (db st)\<rparr>)"
  unfolding mark_failed_def by (simp split: option.splits)

lemma crawl_domain_returns:
  "\<exists>st. crawl_domain L E max_depth d domain_id url worker = Some (Inr st)"
proof -
  obtain r where r: "crawl_try L E max_depth d domain_id url worker = Some r"
    using crawl_try_returns by blast
  show ?thesis
  proof (cases r)
    case (Inl p)
    obtain e st where p: "p = (e, st)" by (cases p)
    show ?thesis
      using r Inl p mark_failed_frame [of E domain_id e st]
      unfolding crawl_domain_def by auto
  next
    case (Inr st)
    then show ?thesis using r unfolding crawl_domain_def by simp
  qed
qed

lemma crawl_domain_once:
  assumes "crawl_domain L E max_depth d domain_id url worker = Some (Inr st)"
  shows "fetch_once st"
proof -
  obtain r where r: "crawl_try L E max_depth d domain_id url worker = Some r"
    using crawl_try_returns by blast
  note o = crawl_try_once [OF r]
  show ?thesis
  proof (cases r)
    case (Inl p)
    obtain e st0 where p: "p = (e, st0)" by (cases p)
    have f: "fetch_once st0" using o Inl p by simp
    then have f': "fetch_once (st0\<lparr>db := x\<rparr>)" for x by (simp add: fetch_once_def)
    have "mark_failed E domain_id e st0 = Inr st"
      using assms r Inl p unfolding crawl_domain_def by simp
    then show ?thesis using mark_failed_frame [of E domain_id e st0] f f' by auto
  next
    case (Inr st1)
    then have "st = st1" using assms r unfolding crawl_domain_def by simp
    then show ?thesis using o Inr by simp
  qed
qed

text \<open>
  C8. Within one crawl no URL is fetched twice. \<open>fetched\<close> lists the calls of
  \<open>fetch_page\<close>; at the return of \<open>crawl_domain\<close> it has no repetition and every entry
  is in \<open>visited_urls\<close>. The same holds across every \<open>gather\<close> and across the loop, for
  any list of tasks, also one that names a URL several times and in any order of
  completion: a task whose URL is already in \<open>visited_urls\<close> is skipped without a fetch,
  and a URL enters \<open>visited_urls\<close> in the same step that starts its fetch.
\<close>

theorem no_url_fetched_twice:
  "(crawl_domain L E max_depth d domain_id url worker = Some (Inr st)
      \<longrightarrow> distinct (fetched st) \<and> set (fetched st) \<subseteq> set (visited_urls st))
   \<and> (fetch_once st0 \<longrightarrow> fetch_once (gather L E max_depth domain_id base_domain tasks st0))
   \<and> (bfs_loop L E max_depth domain_id base_domain tasks st0 = Some r \<and> fetch_once st0
      \<longrightarrow> fetch_once (snd r))
   \<and> (u \<in> set (visited_urls st0) \<longrightarrow> start_tasks max_depth [(depth, u)] st0 = ([], st0))"
proof (intro conjI impI)
  assume "crawl_domain L E max_depth d domain_id url worker = Some (Inr st)"
  then have "fetch_once st" by (rule crawl_domain_once)
  then show "distinct (fetched st)" and "set (fetched st) \<subseteq> set (visited_urls st)"
    by (simp_all add: fetch_once_def)
next
  assume "fetch_once st0"
  then show "fetch_once (gather L E max_depth domain_id base_domain tasks st0)"
    by (rule gather_once)
next
  assume "bfs_loop L E max_depth domain_id base_domain tasks st0 = Some r \<and> fetch_once st0"
  then show "fetch_once (snd r)" using bfs_loop_once by blast
next
  assume "u \<in> set (visited_urls st0)"
  then show "start_tasks max_depth [(depth, u)] st0 = ([], st0)" by simp
qed

theorem no_url_fetched_twice_witness:
  "fetched (gather lib0 world0 1 1 ''a.test''
              [(0, ''https://a.test/''), (1, ''https://a.test/contact''),
               (0, ''https://a.test/''), (1, ''https://a.test/contact'')]
              (initial_crawl db0 ''https://a.test/''))
     = [''https://a.test/'', ''https://a.test/contact'']
   \<and> fetch_once (gather lib0 world0 1 1 ''a.test''
              [(0, ''https://a.test/''), (1, ''https://a.test/contact''),
               (0, ''https://a.test/''), (1, ''https://a.test/contact'')]
              (initial_crawl db0 ''https://a.test/''))"
proof -
  have i: "fetch_once (initial_crawl db0 ''https://a.test/'')"
    by (simp add: fetch_once_def initial_crawl_def)
  have f: "fetched (gather lib0 world0 1 1 ''a.test''
              [(0, ''https://a.test/''), (1, ''https://a.test/contact''),
               (0, ''https://a.test/''), (1, ''https://a.test/contact'')]
              (initial_crawl db0 ''https://a.test/''))
     = [''https://a.test/'', ''https://a.test/contact'']"
    by code_simp
  note g = no_url_fetched_twice
    [where L = lib0 and E = world0 and max_depth = 1 and domain_id = 1
       and base_domain = "''a.test''" and ?st0.0 = "initial_crawl db0 ''https://a.test/''"
       and tasks = "[(0, ''https://a.test/''), (1, ''https://a.test/contact''),
                     (0, ''https://a.test/''), (1, ''https://a.test/contact'')]",
     THEN conjunct2, THEN conjunct1, rule_format, OF i]
  show ?thesis using f g by (simp only: simp_thms)
qed

text \<open>
  C7, as the code has it. \<open>crawl_domain\<close> returns and never raises. When an exception
  with text \<open>e\<close> leaves the body of the \<open>try\<close> (raised by the claim of the domain or by
  the final update; exceptions of page tasks and of the flush are caught before), and the
  update to \<open>failed\<close> itself succeeds, the row of the domain gets status \<open>failed\<close>, the
  first 500 characters of \<open>e\<close> as error message, and no worker and no lock. When that
  update raises too, it is logged and the row stays as it was.
\<close>

theorem crawl_failure_recorded:
  "(\<exists>st. crawl_domain L E max_depth d domain_id url worker = Some (Inr st))
   \<and> (crawl_try L E max_depth d domain_id url worker = Some (Inl (e, st0))
        \<and> failed_raises E = None \<and> domains (db st0) domain_id = Some r
      \<longrightarrow> (\<exists>st. crawl_domain L E max_depth d domain_id url worker = Some (Inr st)
             \<and> domains (db st) domain_id
                 = Some (r\<lparr>row_status := Failed, row_error_message := Some (take 500 e),
                           row_worker_id := None, row_locked_at := None\<rparr>)
             \<and> length (take 500 e) \<le> 500))
   \<and> (crawl_try L E max_depth d domain_id url worker = Some (Inl (e, st0))
        \<and> failed_raises E = Some x
      \<longrightarrow> crawl_domain L E max_depth d domain_id url worker = Some (Inr st0))
   \<and> (claim_raises E = Some e
      \<longrightarrow> crawl_try L E max_depth d domain_id url worker = Some (Inl (e, initial_crawl d url)))
   \<and> (claim_raises E = None \<and> complete_raises E = Some e
      \<longrightarrow> (\<exists>st1. crawl_try L E max_depth d domain_id url worker = Some (Inl (e, st1))))"
proof (intro conjI impI)
  show "\<exists>st. crawl_domain L E max_depth d domain_id url worker = Some (Inr st)"
    by (rule crawl_domain_returns)
next
  assume a: "crawl_try L E max_depth d domain_id url worker = Some (Inl (e, st0))
        \<and> failed_raises E = None \<and> domains (db st0) domain_id = Some r"
  let ?st = "st0\<lparr>db := update_domain domain_id
                  (\<lambda>r. r\<lparr>row_status := Failed, row_error_message := Some (take 500 e),
                          row_worker_id := None, row_locked_at := None\<rparr>) (db st0)\<rparr>"
  have 1: "crawl_domain L E max_depth d domain_id url worker = Some (Inr ?st)"
    using a unfolding crawl_domain_def mark_failed_def by simp
  have 2: "domains (db ?st) domain_id
      = Some (r\<lparr>row_status := Failed, row_error_message := Some (take 500 e),
                row_worker_id := None, row_locked_at := None\<rparr>)"
    using a unfolding update_domain_def by simp
  have 3: "length (take 500 e) \<le> 500" by simp
  show "\<exists>st. crawl_domain L E max_depth d domain_id url worker = Some (Inr st)
      \<and> domains (db st) domain_id
          = Some (r\<lparr>row_status := Failed, row_error_message := Some (take 500 e),
                    row_worker_id := None, row_locked_at := None\<rparr>)
      \<and> length (take 500 e) \<le> 500"
    using 1 2 3 by blast
next
  assume "crawl_try L E max_depth d domain_id url worker = Some (Inl (e, st0))
        \<and> failed_raises E = Some x"
  then show "crawl_domain L E max_depth d domain_id url worker = Some (Inr st0)"
    unfolding crawl_domain_def mark_failed_def by simp
next
  assume "claim_raises E = Some e"
  then show "crawl_try L E max_depth d domain_id url worker = Some (Inl (e, initial_crawl d url))"
    unfolding crawl_try_def by simp
next
  assume "claim_raises E = None \<and> complete_raises E = Some e"
  then show "\<exists>st1. crawl_try L E max_depth d domain_id url worker = Some (Inl (e, st1))"
    unfolding crawl_try_value by (simp add: Let_def)
qed

theorem crawl_failure_recorded_witness:
  "\<exists>st. crawl_domain lib0 claim_fails 1 db0 1 ''https://a.test/'' ''worker-1'' = Some (Inr st)
     \<and> domains (db st) 1
         = Some (pending_row\<lparr>row_status := Failed, row_error_message := Some ''deadlock found'',
                            row_worker_id := None, row_locked_at := None\<rparr>)"
proof -
  have c: "claim_raises claim_fails = Some ''deadlock found''"
    by (simp add: claim_fails_def world0_def)
  note t = crawl_failure_recorded
    [where L = lib0 and E = claim_fails and max_depth = 1 and d = db0 and domain_id = 1
       and url = "''https://a.test/''" and worker = "''worker-1''" and e = "''deadlock found''"
       and ?st0.0 = "initial_crawl db0 ''https://a.test/''" and r = pending_row]
  have tr: "crawl_try lib0 claim_fails 1 db0 1 ''https://a.test/'' ''worker-1''
      = Some (Inl (''deadlock found'', initial_crawl db0 ''https://a.test/''))"
    using t [THEN conjunct2, THEN conjunct2, THEN conjunct2, THEN conjunct1, rule_format, OF c] .
  have h: "crawl_try lib0 claim_fails 1 db0 1 ''https://a.test/'' ''worker-1''
        = Some (Inl (''deadlock found'', initial_crawl db0 ''https://a.test/''))
      \<and> failed_raises claim_fails = None
      \<and> domains (db (initial_crawl db0 ''https://a.test/'')) 1 = Some pending_row"
    using tr by (simp add: claim_fails_def world0_def initial_crawl_def db0_def)
  have k: "take 500 ''deadlock found'' = ''deadlock found''" by simp
  show ?thesis
    using t [THEN conjunct2, THEN conjunct1, rule_format, OF h] unfolding k by blast
qed

text \<open>
  C7 as the specification states it fails: with the database down, the claim raises and
  the update to \<open>failed\<close> raises as well; \<open>crawl_domain\<close> returns, and the row is still
  \<open>pending\<close>.
\<close>

theorem crawl_failure_not_recorded:
  "crawl_try lib0 db_down 1 db0 1 ''https://a.test/'' ''worker-1''
     = Some (Inl (''connection refused'', initial_crawl db0 ''https://a.test/''))
   \<and> crawl_domain lib0 db_down 1 db0 1 ''https://a.test/'' ''worker-1''
     = Some (Inr (initial_crawl db0 ''https://a.test/''))
   \<and> map_option row_status (domains (db (initial_crawl db0 ''https://a.test/'')) 1) = Some Pending"
  by (simp add: crawl_domain_def crawl_try_def mark_failed_def db_down_def world0_def
      initial_crawl_def db0_def pending_row_def)

subsection \<open>How far the crawl gets\<close>

text \<open>
  Whatever the site and the depth limit, a crawl that returns has visited the start URL
  and nothing else (nothing at all when the first status update fails).
\<close>

lemma crawl_visits_start_only:
  assumes "crawl_domain L E max_depth d domain_id url worker = Some (Inr st)"
  shows "visited_urls st = (if claim_raises E = None then [url] else [])"
proof -
  let ?st = "(initial_crawl
                (update_domain domain_id
                   (\<lambda>r. r\<lparr>row_status := Crawling, row_worker_id := Some worker,
                           row_locked_at := Some (now E)\<rparr>) d) url)\<lparr>queue := []\<rparr>"
  let ?g = "gather L E max_depth domain_id (extract_domain L url) [(0, url)] ?st"
  have g: "visited_urls ?g = [url]"
    unfolding gather_def using fold_finish_frame
    by (simp add: initial_crawl_def set_add_def)
  have f: "visited_urls (flush_emails E domain_id ?g) = [url]"
    using flush_emails_frame g by simp
  show ?thesis
  proof (cases "claim_raises E")
    case (Some e)
    then have "crawl_try L E max_depth d domain_id url worker = Some (Inl (e, initial_crawl d url))"
      unfolding crawl_try_def by simp
    then have "mark_failed E domain_id e (initial_crawl d url) = Inr st"
      using assms unfolding crawl_domain_def by simp
    then have "visited_urls st = []"
      using mark_failed_frame [of E domain_id e "initial_crawl d url"]
      by (auto simp: initial_crawl_def)
    then show ?thesis using Some by simp
  next
    case None
    show ?thesis
    proof (cases "complete_raises E")
      case (Some e)
      then have "crawl_try L E max_depth d domain_id url worker
          = Some (Inl (e, flush_emails E domain_id ?g))"
        unfolding crawl_try_value using None by (simp add: Let_def)
      then have "mark_failed E domain_id e (flush_emails E domain_id ?g) = Inr st"
        using assms unfolding crawl_domain_def by simp
      then have "visited_urls st = visited_urls (flush_emails E domain_id ?g)"
        using mark_failed_frame [of E domain_id e "flush_emails E domain_id ?g"] by auto
      then show ?thesis using f None by simp
    next
      case n2: None
      let ?x = "update_domain domain_id
                  (\<lambda>r. r\<lparr>row_status := Completed,
                          row_pages_crawled := length (visited_urls (flush_emails E domain_id ?g)),
                          row_emails_found := length (emails_found (flush_emails E domain_id ?g)),
                          row_worker_id := None, row_locked_at := None\<rparr>)
                  (db (flush_emails E domain_id ?g))"
      have "crawl_try L E max_depth d domain_id url worker
          = Some (Inr ((flush_emails E domain_id ?g)\<lparr>db := ?x\<rparr>))"
        unfolding crawl_try_value using None n2 by (simp add: Let_def)
      then have "st = (flush_emails E domain_id ?g)\<lparr>db := ?x\<rparr>"
        using assms unfolding crawl_domain_def by simp
      then have "visited_urls st = visited_urls (flush_emails E domain_id ?g)" by simp
      then show ?thesis using f None by simp
    qed
  qed
qed

text \<open>
  C1. The loop of \<open>crawl_domain\<close> pops the start URL and creates its task, finds the
  queue empty before the task has run, and ends; the task runs in the \<open>gather\<close> after the
  loop, and what it appends to the queue is never popped. On the site of the scenario
  with \<open>max_depth = 1\<close> both links are enqueued, \<open>/contact\<close> first, and the crawl ends
  with one page visited, the two entries still in the queue, and \<open>pages_crawled = 1\<close>.
\<close>

theorem crawl_stops_after_root:
  "\<exists>st. crawl_domain lib0 world0 1 db0 1 ''https://a.test/'' ''worker-1'' = Some (Inr st)
     \<and> visited_urls st = [''https://a.test/'']
     \<and> fetched st = [''https://a.test/'']
     \<and> queue st = [(1, ''https://a.test/contact''), (1, ''https://a.test/blog/2024'')]
     \<and> map_option row_status (domains (db st) 1) = Some Completed
     \<and> map_option row_pages_crawled (domains (db st) 1) = Some 1"
proof -
  let ?st0 = "(initial_crawl
                (update_domain 1
                   (\<lambda>r. r\<lparr>row_status := Crawling, row_worker_id := Some ''worker-1'',
                           row_locked_at := Some (now world0)\<rparr>) db0) ''https://a.test/'')\<lparr>queue := []\<rparr>"
  let ?st2 = "flush_emails world0 1
                (gather lib0 world0 1 1 (extract_domain lib0 ''https://a.test/'')
                   [(0, ''https://a.test/'')] ?st0)"
  let ?st = "?st2\<lparr>db := update_domain 1
                (\<lambda>r. r\<lparr>row_status := Completed,
                        row_pages_crawled := length (visited_urls ?st2),
                        row_emails_found := length (emails_found ?st2),
                        row_worker_id := None, row_locked_at := None\<rparr>)
                (db ?st2)\<rparr>"
  have w: "claim_raises world0 = None" "complete_raises world0 = None"
    by (simp_all add: world0_def)
  have 1: "crawl_domain lib0 world0 1 db0 1 ''https://a.test/'' ''worker-1'' = Some (Inr ?st)"
    unfolding crawl_domain_def crawl_try_value w by (simp add: Let_def)
  have v: "(let st = ?st
            in (visited_urls st, fetched st, queue st,
                map_option row_status (domains (db st) 1),
                map_option row_pages_crawled (domains (db st) 1)))
     = ([''https://a.test/''], [''https://a.test/''],
        [(1, ''https://a.test/contact''), (1, ''https://a.test/blog/2024'')],
        Some Completed, Some 1)"
    by code_simp
  have 2: "visited_urls ?st = [''https://a.test/'']
     \<and> fetched ?st = [''https://a.test/'']
     \<and> queue ?st = [(1, ''https://a.test/contact''), (1, ''https://a.test/blog/2024'')]
     \<and> map_option row_status (domains (db ?st) 1) = Some Completed
     \<and> map_option row_pages_crawled (domains (db ?st) 1) = Some 1"
    using v by (simp only: Let_def prod.inject)
  show ?thesis using 1 2 by (rule exI [of _ ?st, OF conjI])
qed

end
